theory Spec2Isabelle
  imports Complex_Main "HOL-Library.Char_ord" "HOL-Library.List_Lexorder" "HOL-Library.Sublist"
begin

section \<open>Data model\<close>

text \<open>
  The pipeline moves Polars frames in and out of a DuckDB file. A cell is NULL (a Polars null)
  or a value of one of the column types the event source delivers: an unsigned integer (block
  numbers, timestamps, bids), a string (hashes, addresses, signatures, the commitment index) or
  a boolean (\<open>isSlash\<close>).

  A row is kept as the list of its (column, cell) pairs in column order, as Polars'
  \<open>rows(named=True)\<close> shows it; a frame is its column list with its rows. A DuckDB table is a
  frame as well, and the database file is the map from table names to tables.
\<close>

datatype val = Null | UIntV nat | StrV string | BoolV bool

type_synonym row = "(string \<times> val) list"

record dataframe =
  columns :: "string list"
  rows :: "row list"

type_synonym database = "string \<rightharpoonup> dataframe"

text \<open>
  What Polars guarantees of every frame: column names are distinct, every row has exactly the
  frame's columns, and a frame without columns has no rows.
\<close>

definition wf_df :: "dataframe \<Rightarrow> bool" where
  "wf_df df \<longleftrightarrow>
     distinct (columns df) \<and> (\<forall>r \<in> set (rows df). map fst r = columns df) \<and>
     (columns df = [] \<longrightarrow> rows df = [])"

text \<open>The exceptions the two modules can meet; all of them are subclasses of \<open>Exception\<close>.\<close>

datatype exn =
    KeyError string
  | ValueError string
  | TypeError string
  | ParserException string
  | ColumnNotFoundError string
  | DuplicateError string
  | InvalidOperationError string
  | SchemaError string
  | IOException string
  | CatalogException string
  | BinderException string
  | Exception string

definition bind :: "exn + 'a \<Rightarrow> ('a \<Rightarrow> exn + 'b) \<Rightarrow> exn + 'b" where
  "bind m f = (case m of Inl e \<Rightarrow> Inl e | Inr x \<Rightarrow> f x)"

subsection \<open>Python and Polars primitives\<close>

text \<open>\<open>pl.DataFrame()\<close>, \<open>df.is_empty()\<close> and \<open>len(df)\<close>.\<close>

definition DataFrame :: dataframe where
  "DataFrame = \<lparr>columns = [], rows = []\<rparr>"

definition is_empty :: "dataframe \<Rightarrow> bool" where
  "is_empty df \<longleftrightarrow> rows df = []"

definition len :: "dataframe \<Rightarrow> int" where
  "len df = int (length (rows df))"

text \<open>\<open>str(n)\<close> of a Python integer, as the f-strings format it.\<close>

definition digit_char :: "nat \<Rightarrow> char" where
  "digit_char d = ''0123456789'' ! d"

function str_nat :: "nat \<Rightarrow> string" where
  "str_nat n = (if n < 10 then [digit_char n] else str_nat (n div 10) @ [digit_char (n mod 10)])"
  by pat_completeness auto
termination
  by (relation "measure id") auto

definition str :: "int \<Rightarrow> string" where
  "str i = (if i < 0 then CHR ''-'' # str_nat (nat (- i)) else str_nat (nat i))"

text \<open>
  \<open>int(s)\<close> of a Python string in base ten, for ASCII text: blanks around the number are
  dropped, one sign may lead, and single underscores may separate digits.
\<close>

definition is_digit :: "char \<Rightarrow> bool" where
  "is_digit c \<longleftrightarrow> CHR ''0'' \<le> c \<and> c \<le> CHR ''9''"

definition digit_val :: "char \<Rightarrow> nat" where
  "digit_val c = of_char c - 48"

definition is_space :: "char \<Rightarrow> bool" where
  "is_space c \<longleftrightarrow> c \<in> set [CHR '' '', CHR 0x09, CHR 0x0A, CHR 0x0B, CHR 0x0C, CHR 0x0D]"

definition strip :: "string \<Rightarrow> string" where
  "strip s = rev (dropWhile is_space (rev (dropWhile is_space s)))"

fun digits_from :: "nat \<Rightarrow> string \<Rightarrow> nat option" where
  "digits_from acc [] = Some acc"
| "digits_from acc (c # cs) =
     (if is_digit c then digits_from (10 * acc + digit_val c) cs
      else if c = CHR ''_'' then
        (case cs of [] \<Rightarrow> None | d # ds \<Rightarrow> if is_digit d then digits_from acc cs else None)
      else None)"

definition unsigned_of :: "string \<Rightarrow> nat option" where
  "unsigned_of s =
     (case s of [] \<Rightarrow> None | d # ds \<Rightarrow> if is_digit d then digits_from 0 s else None)"

definition int_of_str :: "string \<Rightarrow> exn + int" where
  "int_of_str s =
     (let t = strip s;
          r = (case t of
                 [] \<Rightarrow> None
               | c # cs \<Rightarrow>
                   if c = CHR ''-'' then map_option (\<lambda>n. - int n) (unsigned_of cs)
                   else if c = CHR ''+'' then map_option int (unsigned_of cs)
                   else map_option int (unsigned_of t))
      in case r of None \<Rightarrow> Inl (ValueError s) | Some i \<Rightarrow> Inr i)"

text \<open>\<open>int(result)\<close> on what DuckDB hands back for one cell; \<open>int(None)\<close> is a type error.\<close>

fun py_int :: "val \<Rightarrow> exn + int" where
  "py_int Null = Inl (TypeError ''int'')"
| "py_int (UIntV n) = Inr (int n)"
| "py_int (BoolV b) = Inr (if b then 1 else 0)"
| "py_int (StrV s) = int_of_str s"

text \<open>\<open>needle in haystack\<close> and \<open>s.lower()\<close> on ASCII text.\<close>

definition contains :: "string \<Rightarrow> string \<Rightarrow> bool" where
  "contains haystack needle \<longleftrightarrow> list_ex (prefix needle) (suffixes haystack)"

definition lower_char :: "char \<Rightarrow> char" where
  "lower_char c =
     (case map_of (zip ''ABCDEFGHIJKLMNOPQRSTUVWXYZ'' ''abcdefghijklmnopqrstuvwxyz'') c of
        None \<Rightarrow> c
      | Some l \<Rightarrow> l)"

definition lower :: "string \<Rightarrow> string" where
  "lower s = map lower_char s"

text \<open>\<open>dataframes[name]\<close> on a dictionary of frames.\<close>

definition getitem :: "(string \<rightharpoonup> dataframe) \<Rightarrow> string \<Rightarrow> exn + dataframe" where
  "getitem d k = (case d k of None \<Rightarrow> Inl (KeyError k) | Some v \<Rightarrow> Inr v)"

subsection \<open>DuckDB statements\<close>

text \<open>
  The statements are built as text, the names pasted in as they are. A name that stands where
  SQL expects a table or a column must read as one unquoted identifier: letters, digits and
  underscores, no digit first, and no reserved word. Any other name makes the statement another
  statement, most often one that DuckDB refuses. The model does not follow what other text
  DuckDB would still accept (a qualified name, a name that ends in a comment): it lets every such
  statement fail to parse.
\<close>

definition is_ident_start :: "char \<Rightarrow> bool" where
  "is_ident_start c \<longleftrightarrow> c \<in> set ''abcdefghijklmnopqrstuvwxyzABCDEFGHIJKLMNOPQRSTUVWXYZ_''"

definition is_ident_char :: "char \<Rightarrow> bool" where
  "is_ident_char c \<longleftrightarrow> is_ident_start c \<or> c \<in> set ''0123456789''"

definition reserved_words :: "string list" where
  "reserved_words =
     [''all'', ''analyse'', ''analyze'', ''and'', ''any'', ''array'', ''as'', ''asc'',
      ''asymmetric'', ''both'', ''case'', ''cast'', ''check'', ''collate'', ''column'',
      ''constraint'', ''create'', ''default'', ''deferrable'', ''desc'', ''describe'',
      ''distinct'', ''do'', ''else'', ''end'', ''except'', ''false'', ''fetch'', ''for'',
      ''foreign'', ''from'', ''grant'', ''group'', ''having'', ''in'', ''initially'',
      ''intersect'', ''into'', ''lateral'', ''leading'', ''limit'', ''not'', ''null'',
      ''offset'', ''on'', ''only'', ''or'', ''order'', ''pivot'', ''pivot_longer'',
      ''pivot_wider'', ''placing'', ''primary'', ''qualify'', ''references'', ''returning'',
      ''select'', ''show'', ''some'', ''summarize'', ''symmetric'', ''table'', ''then'', ''to'',
      ''trailing'', ''true'', ''union'', ''unique'', ''unpivot'', ''using'', ''variadic'',
      ''when'', ''where'', ''window'', ''with'']"

definition sql_identifier :: "string \<Rightarrow> bool" where
  "sql_identifier s \<longleftrightarrow>
     (case s of [] \<Rightarrow> False | c # cs \<Rightarrow> is_ident_start c \<and> list_all is_ident_char cs) \<and>
     lower s \<notin> set reserved_words"

text \<open>
  \<open>SELECT COUNT(*) FROM information_schema.tables WHERE table_name = '...'\<close>, read as a
  truth value by Python. The name is pasted between the two quotes of a string literal, so
  every name without a quote is compared as it is. A quote in the name ends the literal early
  and what follows is read as SQL, as in \<open>table_name = 'it's'\<close>, which DuckDB refuses: the model
  lets every such statement fail to parse.
\<close>

definition table_exists :: "database \<Rightarrow> string \<Rightarrow> exn + bool" where
  "table_exists db table_name =
     (if CHR 0x27 \<in> set table_name then Inl (ParserException table_name)
      else Inr (db table_name \<noteq> None))"

text \<open>
  \<open>SELECT MAX(c) FROM t\<close>: the greatest cell of the column that is not NULL, and no value
  when there is none. Columns are typed, so the cells compared are of one kind; kinds are
  ranked only to keep the comparison total.
\<close>

fun val_le :: "val \<Rightarrow> val \<Rightarrow> bool" where
  "val_le Null _ = True"
| "val_le (UIntV m) (UIntV n) = (m \<le> n)"
| "val_le (StrV s) (StrV t) = (s \<le> t)"
| "val_le (BoolV a) (BoolV b) = (a \<le> b)"
| "val_le (UIntV _) _ = True"
| "val_le (BoolV _) (StrV _) = True"
| "val_le _ _ = False"

definition column_cells :: "dataframe \<Rightarrow> string \<Rightarrow> val list" where
  "column_cells t c = List.map_filter (\<lambda>r. map_of r c) (rows t)"

fun sql_max :: "val list \<Rightarrow> val option" where
  "sql_max [] = None"
| "sql_max (v # vs) =
     (if v = Null then sql_max vs
      else case sql_max vs of None \<Rightarrow> Some v | Some m \<Rightarrow> Some (if val_le m v then v else m))"

text \<open>
  The rows the append statement selects:
  \<open>SELECT new.* FROM df_temp AS new LEFT JOIN t AS existing USING(commitmentIndex)
  WHERE existing.commitmentIndex IS NULL\<close>. Two keys match when they are equal and not NULL. A
  new row with k matching stored rows yields k joined rows, all with a stored key, and a new
  row without a match yields one row padded with NULL: the rows kept are the new rows without
  a match, those with a NULL key among them.
\<close>

definition key_match :: "val option \<Rightarrow> val option \<Rightarrow> bool" where
  "key_match a b \<longleftrightarrow> a = b \<and> a \<noteq> Some Null"

definition anti_join :: "dataframe \<Rightarrow> dataframe \<Rightarrow> row list" where
  "anti_join new existing =
     filter (\<lambda>r. \<not> list_ex (\<lambda>e. key_match (map_of e ''commitmentIndex'')
                                          (map_of r ''commitmentIndex''))
                       (rows existing))
            (rows new)"

text \<open>\<open>INSERT INTO t SELECT ...\<close> stores the selected cells by position under the table's columns.\<close>

definition insert_rows :: "dataframe \<Rightarrow> row list \<Rightarrow> dataframe" where
  "insert_rows t rs = t\<lparr>rows := rows t @ map (\<lambda>r. zip (columns t) (map snd r)) rs\<rparr>"

section \<open>Storage accessor (data_processing.py)\<close>

definition get_latest_block_number :: "string \<Rightarrow> string \<Rightarrow> database \<Rightarrow> exn + int" where
  "get_latest_block_number table_name block_column db =
     bind (table_exists db table_name) (\<lambda>found.
       if \<not> found then Inr 0
       else if \<not> sql_identifier block_column then Inl (ParserException block_column)
       else if \<not> sql_identifier table_name then Inl (ParserException table_name)
       else (case db table_name of
               None \<Rightarrow> Inl (CatalogException table_name)
             | Some t \<Rightarrow>
                 if block_column \<notin> set (columns t) then Inl (BinderException block_column)
                 else (case sql_max (column_cells t block_column) of
                         None \<Rightarrow> Inr 0
                       | Some result \<Rightarrow> py_int result)))"

text \<open>
  \<open>write_to_duckdb\<close> returns its status line, or raises, and leaves the database file in a new
  state. A statement that raises changes nothing.
\<close>

definition write_to_duckdb ::
  "dataframe \<Rightarrow> string \<Rightarrow> database \<Rightarrow> (exn + string) \<times> database" where
  "write_to_duckdb df table_name db =
     (if is_empty df then (Inr (table_name @ '': no new data''), db)
      else
        (case table_exists db table_name of
           Inl e \<Rightarrow> (Inl e, db)
         | Inr found \<Rightarrow>
             if \<not> sql_identifier table_name then (Inl (ParserException table_name), db)
             else if \<not> found then
               (Inr (table_name @ '': created table with '' @ str (len df) @ '' records''),
                db(table_name \<mapsto> df))
             else
               (case db table_name of
                  None \<Rightarrow> (Inl (CatalogException table_name), db)
                | Some existing \<Rightarrow>
                    if ''commitmentIndex'' \<notin> set (columns df)
                       \<or> ''commitmentIndex'' \<notin> set (columns existing)
                    then (Inl (BinderException ''commitmentIndex''), db)
                    else if length (columns df) \<noteq> length (columns existing)
                    then (Inl (BinderException table_name), db)
                    else
                      (Inr (table_name @ '': inserted '' @ str (len df) @ '' new records''),
                       db(table_name \<mapsto> insert_rows existing (anti_join df existing))))))"


subsection \<open>Reading with retries\<close>

text \<open>
  What the world does to one call is a script \<open>faults\<close>: \<open>faults k\<close> is the exception that
  opening the file and reading raises after \<open>k\<close> earlier lock conflicts, if it raises one. With
  no fault the statements run on the database state. A run records its result, the number of
  connection attempts and the arguments of the calls of \<open>time.sleep\<close> that returned, in order.

  Delays are Python floats. The model does not fix what a float is: it takes the float
  product, \<open>time.sleep\<close> (which returns, or raises for a delay it does not accept) and the two
  float literals of the module as they are given.
\<close>

record 'f python_floats =
  float_mul :: "'f \<Rightarrow> 'f \<Rightarrow> 'f"
  time_sleep :: "'f \<Rightarrow> exn option"
  lit_1_0 :: 'f
  lit_2_0 :: 'f

record ('a, 'f) run =
  result :: "exn + 'a"
  connects :: nat
  slept :: "'f list"

definition select_all :: "database \<Rightarrow> string \<Rightarrow> exn + dataframe" where
  "select_all db table =
     (if \<not> sql_identifier table then Inl (ParserException table)
      else case db table of None \<Rightarrow> Inl (CatalogException table) | Some t \<Rightarrow> Inr t)"

fun read_tables ::
  "database \<Rightarrow> string list \<Rightarrow> (string \<rightharpoonup> dataframe) \<Rightarrow> exn + (string \<rightharpoonup> dataframe)" where
  "read_tables db [] dataframes = Inr dataframes"
| "read_tables db (table # rest) dataframes =
     bind (select_all db table) (\<lambda>df. read_tables db rest (dataframes(table \<mapsto> df)))"

definition is_lock_conflict :: "string \<Rightarrow> bool" where
  "is_lock_conflict msg \<longleftrightarrow>
     contains msg ''Conflicting lock'' \<or> contains (lower msg) ''database is locked''"

function read_db_loop ::
  "'f python_floats \<Rightarrow> string \<Rightarrow> string list \<Rightarrow> int \<Rightarrow> 'f \<Rightarrow> (nat \<Rightarrow> exn option) \<Rightarrow> database \<Rightarrow>
   int \<Rightarrow> 'f \<Rightarrow> (string \<rightharpoonup> dataframe, 'f) run" where
  "read_db_loop fl db_filename tables max_retries backoff_factor faults db attempt delay =
     (if attempt < max_retries then
        (case faults (nat attempt) of
           None \<Rightarrow> \<lparr>result = read_tables db tables Map.empty, connects = 1, slept = []\<rparr>
         | Some e \<Rightarrow>
             (case e of
                IOException msg \<Rightarrow>
                  if is_lock_conflict msg then
                    (case time_sleep fl delay of
                       Some err \<Rightarrow> \<lparr>result = Inl err, connects = 1, slept = []\<rparr>
                     | None \<Rightarrow>
                         (let r = read_db_loop fl db_filename tables max_retries backoff_factor
                                    faults db (attempt + 1) (float_mul fl delay backoff_factor)
                          in r\<lparr>connects := connects r + 1, slept := delay # slept r\<rparr>))
                  else \<lparr>result = Inl e, connects = 1, slept = []\<rparr>
              | _ \<Rightarrow> \<lparr>result = Inl e, connects = 1, slept = []\<rparr>))
      else
        \<lparr>result = Inl (Exception (''Failed to read from '' @ db_filename @ '' after ''
                       @ str max_retries @ '' attempts due to lock conflicts.'')),
         connects = 0, slept = []\<rparr>)"
  by pat_completeness auto
termination
  by (relation "measure (\<lambda>(fl, db_filename, tables, max_retries, backoff_factor, faults, db,
                           attempt, delay). nat (max_retries - attempt))") auto

definition read_db ::
  "'f python_floats \<Rightarrow> string \<Rightarrow> string list \<Rightarrow> int \<Rightarrow> 'f \<Rightarrow> 'f \<Rightarrow> (nat \<Rightarrow> exn option) \<Rightarrow>
   database \<Rightarrow> (string \<rightharpoonup> dataframe, 'f) run" where
  "read_db fl db_filename tables max_retries initial_delay backoff_factor faults db =
     read_db_loop fl db_filename tables max_retries backoff_factor faults db 0 initial_delay"

function read_single_table_loop ::
  "'f python_floats \<Rightarrow> string \<Rightarrow> string \<Rightarrow> int \<Rightarrow> 'f \<Rightarrow> (nat \<Rightarrow> exn option) \<Rightarrow> database \<Rightarrow>
   int \<Rightarrow> 'f \<Rightarrow> (dataframe, 'f) run" where
  "read_single_table_loop fl db_filename table max_retries backoff_factor faults db attempt delay =
     (if attempt < max_retries then
        (case faults (nat attempt) of
           None \<Rightarrow> \<lparr>result = select_all db table, connects = 1, slept = []\<rparr>
         | Some e \<Rightarrow>
             (case e of
                IOException msg \<Rightarrow>
                  if is_lock_conflict msg then
                    (case time_sleep fl delay of
                       Some err \<Rightarrow> \<lparr>result = Inl err, connects = 1, slept = []\<rparr>
                     | None \<Rightarrow>
                         (let r = read_single_table_loop fl db_filename table max_retries
                                    backoff_factor faults db (attempt + 1)
                                    (float_mul fl delay backoff_factor)
                          in r\<lparr>connects := connects r + 1, slept := delay # slept r\<rparr>))
                  else \<lparr>result = Inl e, connects = 1, slept = []\<rparr>
              | _ \<Rightarrow> \<lparr>result = Inl e, connects = 1, slept = []\<rparr>))
      else
        \<lparr>result = Inl (Exception (''Failed to read table '' @ [CHR 0x27] @ table @ [CHR 0x27]
                       @ '' from '' @ db_filename @ '' after '' @ str max_retries
                       @ '' attempts due to lock conflicts.'')),
         connects = 0, slept = []\<rparr>)"
  by pat_completeness auto
termination
  by (relation "measure (\<lambda>(fl, db_filename, table, max_retries, backoff_factor, faults, db,
                           attempt, delay). nat (max_retries - attempt))") auto

definition read_single_table ::
  "'f python_floats \<Rightarrow> string \<Rightarrow> string \<Rightarrow> int \<Rightarrow> 'f \<Rightarrow> 'f \<Rightarrow> (nat \<Rightarrow> exn option) \<Rightarrow>
   database \<Rightarrow> (dataframe, 'f) run" where
  "read_single_table fl db_filename table max_retries initial_delay backoff_factor faults db =
     read_single_table_loop fl db_filename table max_retries backoff_factor faults db 0
       initial_delay"

section \<open>Join engine (data_processing.py)\<close>

subsection \<open>Polars operators\<close>

text \<open>
  \<open>left.join(right, on=key, how="inner")\<close>: one output row for every pair of a left and a
  right row with equal keys; the left row's cells come first, then the right row's cells
  without the key, a right column whose name the left frame has being renamed with the suffix
  \<open>_right\<close>. Keys are equal when they are the same value and not null. A key column missing
  on either side, keys of two kinds, or a renamed column that clashes raise. Polars does not
  promise an order of the joined rows; here they are listed in the order of the left frame,
  and no statement below depends on it.
\<close>

fun same_kind :: "val \<Rightarrow> val \<Rightarrow> bool" where
  "same_kind Null _ = True"
| "same_kind _ Null = True"
| "same_kind (UIntV _) (UIntV _) = True"
| "same_kind (StrV _) (StrV _) = True"
| "same_kind (BoolV _) (BoolV _) = True"
| "same_kind _ _ = False"

definition keys_clash :: "dataframe \<Rightarrow> dataframe \<Rightarrow> string \<Rightarrow> bool" where
  "keys_clash left right key \<longleftrightarrow>
     list_ex (\<lambda>v. list_ex (\<lambda>w. \<not> same_kind v w) (column_cells right key)) (column_cells left key)"

definition right_name :: "dataframe \<Rightarrow> string \<Rightarrow> string" where
  "right_name left c = (if c \<in> set (columns left) then c @ ''_right'' else c)"

definition right_part :: "dataframe \<Rightarrow> string \<Rightarrow> row \<Rightarrow> row" where
  "right_part left key r = map (\<lambda>(c, v). (right_name left c, v)) (filter (\<lambda>(c, v). c \<noteq> key) r)"

definition join_rows :: "dataframe \<Rightarrow> dataframe \<Rightarrow> string \<Rightarrow> row list" where
  "join_rows left right key =
     concat (map (\<lambda>l. map (\<lambda>r. l @ right_part left key r)
                           (filter (\<lambda>r. key_match (map_of r key) (map_of l key)) (rows right)))
                 (rows left))"

definition join :: "dataframe \<Rightarrow> dataframe \<Rightarrow> string \<Rightarrow> exn + dataframe" where
  "join left right key =
     (if key \<notin> set (columns left) \<or> key \<notin> set (columns right) then Inl (ColumnNotFoundError key)
      else if keys_clash left right key then Inl (SchemaError key)
      else
        (let cols = columns left @ map (right_name left) (filter (\<lambda>c. c \<noteq> key) (columns right))
         in if \<not> distinct cols then Inl (DuplicateError key)
            else Inr \<lparr>columns = cols, rows = join_rows left right key\<rparr>))"

text \<open>
  \<open>df.with_columns(expr(pl.col(src)).alias(name))\<close>: the expression is computed from the
  source cell of every row; a column of that name is replaced in place, a new name is added as
  the last column.
\<close>

fun traverse :: "('a \<Rightarrow> exn + 'b) \<Rightarrow> 'a list \<Rightarrow> exn + 'b list" where
  "traverse f [] = Inr []"
| "traverse f (x # xs) = bind (f x) (\<lambda>y. bind (traverse f xs) (\<lambda>ys. Inr (y # ys)))"

definition set_cell :: "row \<Rightarrow> string \<Rightarrow> val \<Rightarrow> row" where
  "set_cell r name v =
     (if name \<in> set (map fst r) then map (\<lambda>(c, w). if c = name then (c, v) else (c, w)) r
      else r @ [(name, v)])"

definition with_columns ::
  "dataframe \<Rightarrow> string \<Rightarrow> (val \<Rightarrow> exn + val) \<Rightarrow> string \<Rightarrow> exn + dataframe" where
  "with_columns df src expr name =
     (if src \<notin> set (columns df) then Inl (ColumnNotFoundError src)
      else
        bind (traverse (\<lambda>r. case map_of r src of
                              None \<Rightarrow> Inl (ColumnNotFoundError src)
                            | Some v \<Rightarrow> bind (expr v) (\<lambda>w. Inr (set_cell r name w)))
                       (rows df))
             (\<lambda>rs. Inr \<lparr>columns = (if name \<in> set (columns df) then columns df
                                    else columns df @ [name]),
                        rows = rs\<rparr>))"

text \<open>
  \<open>pl.lit(p) + pl.col(...)\<close>: string concatenation. A null stays null, a boolean is cast to
  \<open>true\<close> or \<open>false\<close> first, and Polars refuses the sum of a string and a number.
\<close>

fun lit_plus :: "string \<Rightarrow> val \<Rightarrow> exn + val" where
  "lit_plus p Null = Inr Null"
| "lit_plus p (StrV s) = Inr (StrV (p @ s))"
| "lit_plus p (BoolV b) = Inr (StrV (p @ (if b then ''true'' else ''false'')))"
| "lit_plus p (UIntV n) = Inl (InvalidOperationError p)"

text \<open>\<open>df.select(names)\<close>: the named columns in the order given.\<close>

definition select :: "dataframe \<Rightarrow> string list \<Rightarrow> exn + dataframe" where
  "select df names =
     (case filter (\<lambda>c. c \<notin> set (columns df)) names of
        c # _ \<Rightarrow> Inl (ColumnNotFoundError c)
      | [] \<Rightarrow>
          if \<not> distinct names then Inl (DuplicateError (concat names))
          else Inr \<lparr>columns = names,
                    rows = map (\<lambda>r. List.map_filter (\<lambda>c. map_option (Pair c) (map_of r c)) names)
                               (rows df)\<rparr>)"

subsection \<open>The commitments view\<close>

definition commitments_columns :: "string list" where
  "commitments_columns =
     [''block_number_encrypted'', ''timestamp'', ''txnHash'', ''bid'', ''commiter'', ''bidder'',
      ''isSlash'', ''decayStartTimeStamp'', ''decayEndTimeStamp'', ''dispatchTimestamp'',
      ''commitmentHash'', ''commitmentIndex'', ''commitmentDigest'', ''commitmentSignature'',
      ''revertingTxHashes'', ''bidHash'', ''bidSignature'', ''sharedSecretKey'']"

definition join_dataframes :: "(string \<rightharpoonup> dataframe) \<Rightarrow> exn + dataframe" where
  "join_dataframes dataframes =
     bind (getitem dataframes ''encrypted_stores'') (\<lambda>encrypted_stores_df.
     bind (getitem dataframes ''commit_stores'') (\<lambda>commit_stores_df.
     bind (getitem dataframes ''commits_processed'') (\<lambda>commits_processed_df.
     bind (join encrypted_stores_df commit_stores_df ''commitmentIndex'') (\<lambda>j1.
     bind (with_columns j1 ''txnHash'' (lit_plus ''0x'') ''txnHash'') (\<lambda>j2.
     bind (select commits_processed_df [''commitmentIndex'', ''isSlash'']) (\<lambda>processed.
     bind (join j2 processed ''commitmentIndex'') (\<lambda>j3.
     bind (with_columns j3 ''block_number'' Inr ''block_number_encrypted'') (\<lambda>j4.
     select j4 commitments_columns))))))))"

text \<open>
  \<open>load_and_join_data\<close> reads with the default retry policy (5 attempts, delay 1.0, factor
  2.0) and joins; its \<open>except Exception\<close> clause turns every exception into the empty frame.
\<close>

definition load_and_join_data ::
  "'f python_floats \<Rightarrow> string \<Rightarrow> string list \<Rightarrow> (nat \<Rightarrow> exn option) \<Rightarrow> database \<Rightarrow>
   exn + dataframe" where
  "load_and_join_data fl db_filename tables faults db =
     (case bind (result (read_db fl db_filename tables 5 (lit_1_0 fl) (lit_2_0 fl) faults db))
                join_dataframes of
        Inl e \<Rightarrow> Inr DataFrame
      | Inr commitments_df \<Rightarrow> Inr commitments_df)"

definition load_data_from_duckdb :: "database \<Rightarrow> exn + (string \<rightharpoonup> dataframe)" where
  "load_data_from_duckdb db =
     bind (select_all db ''encrypted_stores'') (\<lambda>encrypted_stores_df.
     bind (select_all db ''commit_stores'') (\<lambda>commit_stores_df.
     bind (select_all db ''commits_processed'') (\<lambda>commits_processed_df.
     Inr [''encrypted_stores'' \<mapsto> encrypted_stores_df,
          ''commit_stores'' \<mapsto> commit_stores_df,
          ''commits_processed'' \<mapsto> commits_processed_df])))"


section \<open>Sync orchestrator (query_commits.py)\<close>

text \<open>
  The event-query client is outside the repository: \<open>execute_event_query event from_block\<close>
  stands for \<open>manager.execute_event_query(event_config, tx_data=True, from_block=...)\<close> and
  either returns a frame or raises. One cycle records what it returns or raises, the state it
  leaves the database file in, and the queries it sent, in order.
\<close>

definition tables :: "(string \<times> string \<times> string) list" where
  "tables =
     [(''commit_stores'', ''block_number'', ''OpenedCommitmentStored''),
      (''encrypted_stores'', ''block_number'', ''UnopenedCommitmentStored''),
      (''commits_processed'', ''block_number'', ''CommitmentProcessed'')]"

record cycle =
  outcome :: "exn + dataframe"
  db_after :: database
  requests :: "(string \<times> int) list"

fun latest_blocks_loop ::
  "(string \<times> string \<times> string) list \<Rightarrow> database \<Rightarrow> (string \<rightharpoonup> int) \<Rightarrow> exn + (string \<rightharpoonup> int)" where
  "latest_blocks_loop [] db latest_blocks = Inr latest_blocks"
| "latest_blocks_loop ((table_name, block_column, event_config) # rest) db latest_blocks =
     bind (get_latest_block_number table_name block_column db)
          (\<lambda>latest_block. latest_blocks_loop rest db (latest_blocks(table_name \<mapsto> latest_block)))"

definition from_block_of :: "(string \<rightharpoonup> int) \<Rightarrow> string \<Rightarrow> int" where
  "from_block_of latest_blocks table_name =
     (case latest_blocks table_name of None \<Rightarrow> 0 | Some b \<Rightarrow> b) + 1"

fun fetch_loop ::
  "(string \<Rightarrow> int \<Rightarrow> exn + dataframe) \<Rightarrow> (string \<rightharpoonup> int) \<Rightarrow> (string \<times> string \<times> string) list \<Rightarrow>
   (exn + (string \<times> dataframe) list) \<times> (string \<times> int) list" where
  "fetch_loop execute_event_query latest_blocks [] = (Inr [], [])"
| "fetch_loop execute_event_query latest_blocks ((table_name, block_column, event_config) # rest) =
     (let from_block = from_block_of latest_blocks table_name;
          request = (event_config, from_block)
      in case execute_event_query event_config from_block of
           Inl (ValueError m) \<Rightarrow>
             (case fetch_loop execute_event_query latest_blocks rest of
                (r, reqs) \<Rightarrow> (bind r (\<lambda>dfs. Inr ((table_name, DataFrame) # dfs)), request # reqs))
         | Inl e \<Rightarrow> (Inl e, [request])
         | Inr df \<Rightarrow>
             (case fetch_loop execute_event_query latest_blocks rest of
                (r, reqs) \<Rightarrow> (bind r (\<lambda>dfs. Inr ((table_name, df) # dfs)), request # reqs)))"

fun write_loop ::
  "(string \<times> dataframe) list \<Rightarrow> database \<Rightarrow> (exn + string list) \<times> database" where
  "write_loop [] db = (Inr [], db)"
| "write_loop ((table_name, df) # rest) db =
     (case write_to_duckdb df table_name db of
        (Inl e, db') \<Rightarrow> (Inl e, db')
      | (Inr write_result, db') \<Rightarrow>
          (case write_loop rest db' of
             (r, db'') \<Rightarrow> (bind r (\<lambda>write_info. Inr (write_result # write_info)), db'')))"

definition get_events :: "(string \<Rightarrow> int \<Rightarrow> exn + dataframe) \<Rightarrow> database \<Rightarrow> cycle" where
  "get_events execute_event_query db =
     (case latest_blocks_loop tables db Map.empty of
        Inl e \<Rightarrow> \<lparr>outcome = Inl e, db_after = db, requests = []\<rparr>
      | Inr latest_blocks \<Rightarrow>
          (case fetch_loop execute_event_query latest_blocks tables of
             (Inl e, reqs) \<Rightarrow> \<lparr>outcome = Inl e, db_after = db, requests = reqs\<rparr>
           | (Inr dataframes, reqs) \<Rightarrow>
               (case write_loop dataframes db of
                  (Inl e, db') \<Rightarrow> \<lparr>outcome = Inl e, db_after = db', requests = reqs\<rparr>
                | (Inr write_info, db') \<Rightarrow>
                    \<lparr>outcome = bind (load_data_from_duckdb db') join_dataframes,
                     db_after = db', requests = reqs\<rparr>)))"

section \<open>Notions used in the statements\<close>

text \<open>A lock conflict, as the retry loops recognise it, raised after \<open>k\<close> earlier conflicts.\<close>

definition lock_fault :: "(nat \<Rightarrow> exn option) \<Rightarrow> nat \<Rightarrow> bool" where
  "lock_fault faults k \<longleftrightarrow> (\<exists>msg. faults k = Some (IOException msg) \<and> is_lock_conflict msg)"

text \<open>
  The key of a row, the keys of a frame (its \<open>commitmentIndex\<close> cells that are not NULL), and
  a column that holds unsigned integers only.
\<close>

definition key_of :: "row \<Rightarrow> val option" where
  "key_of r = map_of r ''commitmentIndex''"

definition keys :: "dataframe \<Rightarrow> val option list" where
  "keys df = filter (\<lambda>k. k \<noteq> Some Null) (map key_of (rows df))"

definition is_uint :: "val \<Rightarrow> bool" where
  "is_uint v \<longleftrightarrow> (case v of UIntV n \<Rightarrow> True | _ \<Rightarrow> False)"

definition uints :: "val list \<Rightarrow> nat list" where
  "uints vs = List.map_filter (\<lambda>v. case v of UIntV n \<Rightarrow> Some n | _ \<Rightarrow> None) vs"

definition uint_column :: "dataframe \<Rightarrow> string \<Rightarrow> bool" where
  "uint_column df c \<longleftrightarrow> list_all is_uint (column_cells df c)"

subsection \<open>Sample data\<close>

definition frame :: "string list \<Rightarrow> val list list \<Rightarrow> dataframe" where
  "frame cs vss = \<lparr>columns = cs, rows = map (zip cs) vss\<rparr>"

definition encrypted_stores_sample :: dataframe where
  "encrypted_stores_sample = frame
     [''commitmentIndex'', ''block_number'', ''timestamp'', ''commiter'', ''commitmentDigest'',
      ''commitmentSignature'', ''dispatchTimestamp'']
     [[StrV ''c1'', UIntV 100, UIntV 1700, StrV ''0xaa'', StrV ''d1'', StrV ''s1'', UIntV 1701],
      [StrV ''c2'', UIntV 101, UIntV 1710, StrV ''0xbb'', StrV ''d2'', StrV ''s2'', UIntV 1711],
      [StrV ''c3'', UIntV 102, UIntV 1720, StrV ''0xcc'', StrV ''d3'', StrV ''s3'', UIntV 1721]]"

definition commit_stores_sample :: dataframe where
  "commit_stores_sample = frame
     [''commitmentIndex'', ''block_number'', ''txnHash'', ''bid'', ''bidder'',
      ''decayStartTimeStamp'', ''decayEndTimeStamp'', ''commitmentHash'', ''revertingTxHashes'',
      ''bidHash'', ''bidSignature'', ''sharedSecretKey'']
     [[StrV ''c1'', UIntV 105, StrV ''ab12'', UIntV 7, StrV ''0xb1'', UIntV 1, UIntV 2,
       StrV ''h1'', StrV ''r1'', StrV ''bh1'', StrV ''bs1'', StrV ''k1''],
      [StrV ''c2'', UIntV 106, StrV ''0xcd34'', UIntV 9, StrV ''0xb2'', UIntV 3, UIntV 4,
       StrV ''h2'', StrV ''r2'', StrV ''bh2'', StrV ''bs2'', StrV ''k2'']]"

definition commits_processed_sample :: dataframe where
  "commits_processed_sample = frame
     [''commitmentIndex'', ''block_number'', ''isSlash'']
     [[StrV ''c1'', UIntV 111, BoolV True],
      [StrV ''c2'', UIntV 110, BoolV False]]"

definition sample_db :: database where
  "sample_db = [''encrypted_stores'' \<mapsto> encrypted_stores_sample,
                ''commit_stores'' \<mapsto> commit_stores_sample,
                ''commits_processed'' \<mapsto> commits_processed_sample]"

definition commitments_sample :: dataframe where
  "commitments_sample = frame commitments_columns
     [[UIntV 100, UIntV 1700, StrV ''0xab12'', UIntV 7, StrV ''0xaa'', StrV ''0xb1'', BoolV True,
       UIntV 1, UIntV 2, UIntV 1701, StrV ''h1'', StrV ''c1'', StrV ''d1'', StrV ''s1'', StrV ''r1'',
       StrV ''bh1'', StrV ''bs1'', StrV ''k1''],
      [UIntV 101, UIntV 1710, StrV ''0x0xcd34'', UIntV 9, StrV ''0xbb'', StrV ''0xb2'', BoolV False,
       UIntV 3, UIntV 4, UIntV 1711, StrV ''h2'', StrV ''c2'', StrV ''d2'', StrV ''s2'', StrV ''r2'',
       StrV ''bh2'', StrV ''bs2'', StrV ''k2'']]"

text \<open>
  Floats on which the product is exact, as it is for the defaults 1.0 and 2.0 and their
  products: real numbers, with \<open>time.sleep\<close> refusing a negative delay.
\<close>

definition exact_floats :: "real python_floats" where
  "exact_floats =
     \<lparr>float_mul = (\<lambda>x y. x * y),
      time_sleep = (\<lambda>x. if x < 0 then Some (ValueError ''sleep length must be non-negative'')
                         else None),
      lit_1_0 = 1, lit_2_0 = 2\<rparr>"

text \<open>The delay before retry \<open>k + 1\<close>: the initial delay multiplied \<open>k\<close> times by the factor.\<close>

definition delay_at :: "'f python_floats \<Rightarrow> 'f \<Rightarrow> 'f \<Rightarrow> nat \<Rightarrow> 'f" where
  "delay_at fl initial_delay backoff_factor k =
     ((\<lambda>delay. float_mul fl delay backoff_factor) ^^ k) initial_delay"


definition always_locked :: "nat \<Rightarrow> exn option" where
  "always_locked k = Some (IOException ''database is locked'')"

text \<open>Two events that carry the same commitment index.\<close>

definition duplicated_sample :: dataframe where
  "duplicated_sample = frame
     [''commitmentIndex'', ''block_number'', ''isSlash'']
     [[StrV ''c9'', UIntV 120, BoolV False],
      [StrV ''c9'', UIntV 121, BoolV True]]"

text \<open>
  A stored table and a frame with the same two string columns in the other order; a frame
  whose only row has no commitment index; a \<open>commit_stores\<close> table whose only row has no
  transaction hash.
\<close>

definition swapped_table :: dataframe where
  "swapped_table = frame [''commitmentIndex'', ''bidder''] [[StrV ''c1'', StrV ''0xb1'']]"

definition swapped_sample :: dataframe where
  "swapped_sample = frame [''bidder'', ''commitmentIndex''] [[StrV ''0xbb'', StrV ''c5'']]"

definition null_key_sample :: dataframe where
  "null_key_sample = frame
     [''commitmentIndex'', ''block_number'', ''isSlash'']
     [[Null, UIntV 140, BoolV False]]"




text \<open>A later fetch for \<open>commits_processed\<close>: one event already stored, one new.\<close>

definition later_sample :: dataframe where
  "later_sample = frame
     [''commitmentIndex'', ''block_number'', ''isSlash'']
     [[StrV ''c1'', UIntV 111, BoolV True],
      [StrV ''c3'', UIntV 130, BoolV False]]"

text \<open>When the append statement of \<open>write_to_duckdb\<close> binds: both sides have the key column and the
  numbers of columns agree.\<close>

definition append_binds :: "dataframe \<Rightarrow> dataframe \<Rightarrow> bool" where
  "append_binds df existing \<longleftrightarrow>
     ''commitmentIndex'' \<in> set (columns df) \<and> ''commitmentIndex'' \<in> set (columns existing) \<and>
     length (columns df) = length (columns existing)"

text \<open>The \<open>commits_processed\<close> table after \<open>later_sample\<close> has been appended to the sample.\<close>

definition appended_sample :: dataframe where
  "appended_sample = frame
     [''commitmentIndex'', ''block_number'', ''isSlash'']
     [[StrV ''c1'', UIntV 111, BoolV True],
      [StrV ''c2'', UIntV 110, BoolV False],
      [StrV ''c3'', UIntV 130, BoolV False]]"

text \<open>The three tables with their columns and no rows yet.\<close>

definition empty_tables_db :: database where
  "empty_tables_db = [''encrypted_stores'' \<mapsto> encrypted_stores_sample\<lparr>rows := []\<rparr>,
                      ''commit_stores'' \<mapsto> commit_stores_sample\<lparr>rows := []\<rparr>,
                      ''commits_processed'' \<mapsto> commits_processed_sample\<lparr>rows := []\<rparr>]"

definition view_tables :: "string list" where
  "view_tables = [''encrypted_stores'', ''commit_stores'', ''commits_processed'']"

text \<open>
  What a write of \<open>df\<close> leaves under the table's name, given what was stored there, and the
  cursor of a stored table.
\<close>

definition written :: "dataframe \<Rightarrow> dataframe option \<Rightarrow> dataframe option" where
  "written df old =
     (if is_empty df then old
      else case old of
             None \<Rightarrow> Some df
           | Some t \<Rightarrow> if append_binds df t then Some (insert_rows t (anti_join df t)) else Some t)"

definition table_cursor :: "string \<Rightarrow> dataframe option \<Rightarrow> exn + int" where
  "table_cursor block_column old =
     (case old of
        None \<Rightarrow> Inr 0
      | Some t \<Rightarrow>
          if block_column \<notin> set (columns t) then Inl (BinderException block_column)
          else (case sql_max (column_cells t block_column) of
                  None \<Rightarrow> Inr 0
                | Some v \<Rightarrow> py_int v))"

text \<open>An event source that has one new \<open>CommitmentProcessed\<close> event, in block 130.\<close>

definition fresh_sample :: dataframe where
  "fresh_sample = frame
     [''commitmentIndex'', ''block_number'', ''isSlash'']
     [[StrV ''c3'', UIntV 130, BoolV False]]"

definition sample_query :: "string \<Rightarrow> int \<Rightarrow> exn + dataframe" where
  "sample_query event from_block =
     (if event = ''CommitmentProcessed'' \<and> from_block \<le> 130 then Inr fresh_sample
      else Inl (ValueError ''no events''))"

section \<open>Verified properties\<close>

subsection \<open>Retry loops\<close>

declare read_db_loop.simps [simp del] read_single_table_loop.simps [simp del] str_nat.simps [simp del]

lemma delay_at_0: "delay_at fl d b 0 = d"
  by (simp add: delay_at_def)

lemma delay_at_Suc: "delay_at fl d b (Suc k) = float_mul fl (delay_at fl d b k) b"
  by (simp add: delay_at_def)

lemma delay_at_exact: "delay_at exact_floats d b k = d * b ^ k"
  by (induction k) (simp_all add: delay_at_0 delay_at_Suc exact_floats_def)

lemma read_db_loop_exhausted:
  "\<not> attempt < max_retries \<Longrightarrow>
   read_db_loop fl fn ts max_retries b faults db attempt delay =
     \<lparr>result = Inl (Exception (''Failed to read from '' @ fn @ '' after ''
                       @ str max_retries @ '' attempts due to lock conflicts.'')),
      connects = 0, slept = []\<rparr>"
  by (subst read_db_loop.simps) simp

lemma read_db_loop_lock:
  "attempt < max_retries \<Longrightarrow> lock_fault faults (nat attempt) \<Longrightarrow> time_sleep fl delay = None \<Longrightarrow>
   read_db_loop fl fn ts max_retries b faults db attempt delay =
     (let r = read_db_loop fl fn ts max_retries b faults db (attempt + 1) (float_mul fl delay b)
      in r\<lparr>connects := connects r + 1, slept := delay # slept r\<rparr>)"
  by (subst read_db_loop.simps) (auto simp: lock_fault_def)


lemma read_db_loop_ok:
  "attempt < max_retries \<Longrightarrow> faults (nat attempt) = None \<Longrightarrow>
   read_db_loop fl fn ts max_retries b faults db attempt delay =
     \<lparr>result = read_tables db ts Map.empty, connects = 1, slept = []\<rparr>"
  by (subst read_db_loop.simps) simp

lemma read_db_loop_locks:
  assumes "0 \<le> a" and "a + int n \<le> max_retries"
    and "\<forall>k<n. lock_fault faults (nat a + k)"
    and "\<forall>k<n. time_sleep fl (delay_at fl delay b k) = None"
  shows "read_db_loop fl fn ts max_retries b faults db a delay =
     (let r = read_db_loop fl fn ts max_retries b faults db (a + int n) (delay_at fl delay b n)
      in r\<lparr>connects := connects r + n, slept := map (delay_at fl delay b) [0..<n] @ slept r\<rparr>)"
  using assms
proof (induction n)
  case 0
  then show ?case by (simp add: delay_at_0)
next
  case (Suc n)
  have lt: "a + int n < max_retries" using Suc.prems(2) by simp
  have "nat (a + int n) = nat a + n" using Suc.prems(1) by (simp add: nat_add_distrib)
  then have lock: "lock_fault faults (nat (a + int n))" using Suc.prems(3) by simp
  have sl: "time_sleep fl (delay_at fl delay b n) = None" using Suc.prems(4) by simp
  have ih: "read_db_loop fl fn ts max_retries b faults db a delay =
     (let r = read_db_loop fl fn ts max_retries b faults db (a + int n) (delay_at fl delay b n)
      in r\<lparr>connects := connects r + n, slept := map (delay_at fl delay b) [0..<n] @ slept r\<rparr>)"
    using Suc.IH Suc.prems by simp
  have e: "a + int n + 1 = a + int (Suc n)" by simp
  show ?case
    by (simp only: ih read_db_loop_lock [OF lt lock sl] delay_at_Suc [symmetric] e)
       (simp add: Let_def)
qed

lemma read_single_table_loop_exhausted:
  "\<not> attempt < max_retries \<Longrightarrow>
   read_single_table_loop fl fn t max_retries b faults db attempt delay =
     \<lparr>result = Inl (Exception (''Failed to read table '' @ [CHR 0x27] @ t @ [CHR 0x27]
                       @ '' from '' @ fn @ '' after ''
                       @ str max_retries @ '' attempts due to lock conflicts.'')),
      connects = 0, slept = []\<rparr>"
  by (subst read_single_table_loop.simps) simp



lemma read_single_table_loop_ok:
  "attempt < max_retries \<Longrightarrow> faults (nat attempt) = None \<Longrightarrow>
   read_single_table_loop fl fn t max_retries b faults db attempt delay =
     \<lparr>result = select_all db t, connects = 1, slept = []\<rparr>"
  by (subst read_single_table_loop.simps) simp



lemma read_db_all_locked:
  assumes "0 \<le> max_retries" and "\<forall>k. int k < max_retries \<longrightarrow> lock_fault faults k"
    and "\<forall>k. int k < max_retries \<longrightarrow> time_sleep fl (delay_at fl d b k) = None"
  shows "read_db fl fn ts max_retries d b faults db =
     \<lparr>result = Inl (Exception (''Failed to read from '' @ fn @ '' after ''
                       @ str max_retries @ '' attempts due to lock conflicts.'')),
      connects = nat max_retries, slept = map (delay_at fl d b) [0..<nat max_retries]\<rparr>"
  unfolding read_db_def
  using assms read_db_loop_locks [of 0 "nat max_retries" max_retries faults fl d b fn ts db]
    read_db_loop_exhausted [of max_retries max_retries fl fn ts b faults db
      "delay_at fl d b (nat max_retries)"]
  by (simp add: Let_def)






lemma exact_sleep: "time_sleep exact_floats x = None \<longleftrightarrow> 0 \<le> x"
  by (simp add: exact_floats_def)


text \<open>
  Claim C10. With \<open>max_retries\<close> zero or negative, \<open>read_db\<close> and \<open>read_single_table\<close> raise
  the terminal lock-failure exception at once: no connection is attempted and nothing is slept,
  whatever the state of the file.
\<close>

theorem nonpositive_max_retries:
  "max_retries \<le> 0 \<Longrightarrow>
   read_db fl fn ts max_retries d b faults db =
     \<lparr>result = Inl (Exception (''Failed to read from '' @ fn @ '' after '' @ str max_retries
                       @ '' attempts due to lock conflicts.'')),
      connects = 0, slept = []\<rparr> \<and>
   read_single_table fl fn t max_retries d b faults db =
     \<lparr>result = Inl (Exception (''Failed to read table '' @ [CHR 0x27] @ t @ [CHR 0x27]
                       @ '' from '' @ fn @ '' after '' @ str max_retries
                       @ '' attempts due to lock conflicts.'')),
      connects = 0, slept = []\<rparr>"
  unfolding read_db_def read_single_table_def
  by (simp add: read_db_loop_exhausted read_single_table_loop_exhausted)



lemma lock_message_2: "is_lock_conflict ''database is locked''"
  by (simp add: is_lock_conflict_def contains_def lower_def lower_char_def)

lemma str_5: "str 5 = ''5''"
  by (simp add: str_def str_nat.simps digit_char_def)


lemma always_locked_faults: "lock_fault always_locked k"
  by (simp add: lock_fault_def always_locked_def lock_message_2)

lemma commit_stores_identifier: "sql_identifier ''commit_stores''"
  by (simp add: sql_identifier_def is_ident_start_def is_ident_char_def reserved_words_def
      lower_def lower_char_def)

lemma read_sample_tables:
  "read_tables sample_db [''commit_stores''] Map.empty
     = Inr [''commit_stores'' \<mapsto> commit_stores_sample]"
  by (simp add: bind_def select_all_def sample_db_def commit_stores_identifier)

lemma select_sample_table: "select_all sample_db ''commit_stores'' = Inr commit_stores_sample"
  by (simp add: select_all_def sample_db_def commit_stores_identifier)




lemma str_0: "str 0 = ''0''"
  by (simp add: str_def str_nat.simps digit_char_def)

text \<open>With \<open>max_retries = 0\<close> a readable database is not read; with the default it is.\<close>

theorem nonpositive_max_retries_witness:
  "(0::int) \<le> 0 \<and>
   read_db exact_floats ''mev_commit.duckdb'' [''commit_stores''] 0 1 2 (\<lambda>k. None) sample_db =
     \<lparr>result = Inl (Exception ''Failed to read from mev_commit.duckdb after 0 attempts due to lock conflicts.''),
      connects = 0, slept = []\<rparr> \<and>
   result (read_single_table exact_floats ''mev_commit.duckdb'' ''commit_stores'' 5 1 2 (\<lambda>k. None)
             sample_db) =
     Inr commit_stores_sample"
proof -
  have h: "(0::int) \<le> 0" by simp
  have "result (read_single_table exact_floats ''mev_commit.duckdb'' ''commit_stores'' 5 1 2
                  (\<lambda>k. None) sample_db) =
     Inr commit_stores_sample"
    by (simp add: read_single_table_def read_single_table_loop_ok select_sample_table)
  then show ?thesis
    using nonpositive_max_retries [OF h, of exact_floats "''mev_commit.duckdb''"
        "[''commit_stores'']" 1 2 "\<lambda>k. None" sample_db "''commit_stores''"]
    by (simp add: str_0)
qed

subsection \<open>Latest synced position\<close>

lemma identifier_no_quote: "sql_identifier s \<Longrightarrow> CHR 0x27 \<notin> set s"
proof -
  assume s: "sql_identifier s"
  have a: "\<not> is_ident_char (CHR 0x27)"
    by (simp add: is_ident_char_def is_ident_start_def)
  have b: "is_ident_start c \<Longrightarrow> is_ident_char c" for c
    by (simp add: is_ident_char_def)
  from s obtain c cs where "s = c # cs" and "is_ident_start c" and "list_all is_ident_char cs"
    by (cases s) (auto simp: sql_identifier_def)
  then have "list_all is_ident_char s" using b by simp
  then show ?thesis using a by (auto simp: list_all_iff)
qed

lemma table_exists_identifier:
  "sql_identifier T \<Longrightarrow> table_exists db T = Inr (db T \<noteq> None)"
  by (simp add: table_exists_def identifier_no_quote)

lemma uints_Cons: "uints (UIntV n # vs) = n # uints vs"
  by (simp add: uints_def)

lemma uints_Nil: "uints [] = []"
  by (simp add: uints_def)

lemma uints_empty_iff: "list_all is_uint vs \<Longrightarrow> uints vs = [] \<longleftrightarrow> vs = []"
  by (cases vs) (auto simp: is_uint_def uints_Cons uints_Nil split: val.splits)

lemma sql_max_uints:
  "list_all is_uint vs \<Longrightarrow> vs \<noteq> [] \<Longrightarrow> sql_max vs = Some (UIntV (Max (set (uints vs))))"
proof (induction vs)
  case Nil
  then show ?case by simp
next
  case (Cons v vs)
  from Cons.prems obtain n where v: "v = UIntV n"
    by (auto simp: is_uint_def split: val.splits)
  show ?case
  proof (cases "vs = []")
    case True
    then show ?thesis by (simp add: v uints_Cons uints_Nil)
  next
    case False
    then have ne: "uints vs \<noteq> []" using Cons.prems by (simp add: uints_empty_iff)
    have M: "Max (set (uints (v # vs))) = max n (Max (set (uints vs)))"
      using ne by (simp add: v uints_Cons)
    have "sql_max vs = Some (UIntV (Max (set (uints vs))))"
      using Cons False by simp
    then have "sql_max (v # vs) = Some (UIntV (max n (Max (set (uints vs)))))"
      by (simp add: v max_def)
    then show ?thesis by (simp only: M)
  qed
qed





lemma block_number_identifier: "sql_identifier ''block_number''"
  by (simp add: sql_identifier_def is_ident_start_def is_ident_char_def reserved_words_def
      lower_def lower_char_def)



subsection \<open>Dedup-append\<close>

lemma write_db:
  "snd (write_to_duckdb df T db) =
     (if is_empty df \<or> \<not> sql_identifier T then db
      else case db T of
             None \<Rightarrow> db(T \<mapsto> df)
           | Some t \<Rightarrow> if append_binds df t then db(T \<mapsto> insert_rows t (anti_join df t)) else db)"
proof (cases "sql_identifier T")
  case True
  then show ?thesis
    by (auto simp: write_to_duckdb_def table_exists_identifier append_binds_def
        split: option.splits)
next
  case False
  then show ?thesis
    by (auto simp: write_to_duckdb_def table_exists_def split: option.splits)
qed

lemma anti_join_filter:
  "anti_join df t = filter (\<lambda>r. key_of r \<notin> set (keys t)) (rows df)"
proof -
  have "\<not> list_ex (\<lambda>e. key_match (map_of e ''commitmentIndex'') (map_of r ''commitmentIndex''))
              (rows t)
          \<longleftrightarrow> key_of r \<notin> set (keys t)" for r
    unfolding keys_def key_of_def key_match_def list_ex_iff set_filter set_map image_iff
    by auto
  then show ?thesis by (simp add: anti_join_def)
qed

lemma rekey: "map fst r = cs \<Longrightarrow> zip cs (map snd r) = r"
  by (auto simp: zip_map_fst_snd)

lemma insert_rows_same_columns:
  assumes "\<forall>r \<in> set rs. map fst r = columns t"
  shows "insert_rows t rs = t\<lparr>rows := rows t @ rs\<rparr>"
proof -
  have "map (\<lambda>r. zip (columns t) (map snd r)) rs = map (\<lambda>r. r) rs"
    using assms by (intro map_cong) (auto simp: rekey)
  then show ?thesis by (simp add: insert_rows_def)
qed

lemma insert_anti_join:
  assumes "wf_df df" and "columns t = columns df"
  shows "insert_rows t (anti_join df t) = t\<lparr>rows := rows t @ anti_join df t\<rparr>"
proof (rule insert_rows_same_columns)
  show "\<forall>r \<in> set (anti_join df t). map fst r = columns t"
    using assms by (auto simp: anti_join_filter wf_df_def)
qed

lemma keys_append: "keys (t\<lparr>rows := rows t @ rs\<rparr>) = keys t @ filter (\<lambda>k. k \<noteq> Some Null) (map key_of rs)"
  by (simp add: keys_def)

lemma anti_join_again:
  assumes "Some Null \<notin> set (map key_of (rows df))"
  shows "anti_join df (t\<lparr>rows := rows t @ anti_join df t\<rparr>) = []"
proof -
  have "key_of r \<in> set (keys (t\<lparr>rows := rows t @ anti_join df t\<rparr>))" if r: "r \<in> set (rows df)" for r
  proof (cases "key_of r \<in> set (keys t)")
    case True
    then show ?thesis by (simp add: keys_append)
  next
    case False
    then have "r \<in> set (anti_join df t)" using r by (simp add: anti_join_filter)
    moreover have "key_of r \<noteq> Some Null" using assms r by force
    ultimately show ?thesis by (simp add: keys_append)
  qed
  then show ?thesis
    by (simp add: anti_join_filter [of df "t\<lparr>rows := rows t @ anti_join df t\<rparr>"] filter_empty_conv)
qed

lemma anti_join_self:
  assumes "Some Null \<notin> set (map key_of (rows df))"
  shows "anti_join df df = []"
proof -
  have "key_of r \<in> set (keys df)" if "r \<in> set (rows df)" for r
    using assms that by (force simp: keys_def)
  then show ?thesis by (simp add: anti_join_filter filter_empty_conv)
qed

lemma insert_rows_Nil: "insert_rows t [] = t"
  by (simp add: insert_rows_def)

lemma distinct_filter_map_filter:
  "distinct (filter Q (map f xs)) \<Longrightarrow> distinct (filter Q (map f (filter P xs)))"
  by (induction xs) auto

text \<open>
  Claim C1, as the code has it. Dedup-append is idempotent for a frame in which every row has
  a commitment index and which, when the table is already stored, has the table's columns in
  the table's order: writing the frame a second time right after the first write leaves the
  database as the first write left it, table by table and row by row, so no row is inserted by
  the second call.
\<close>

theorem write_twice:
  assumes "wf_df df" and "Some Null \<notin> set (map key_of (rows df))"
    and "\<forall>t. db T = Some t \<longrightarrow> columns t = columns df"
  shows "snd (write_to_duckdb df T (snd (write_to_duckdb df T db))) = snd (write_to_duckdb df T db)"
proof (cases "is_empty df \<or> \<not> sql_identifier T")
  case True
  then show ?thesis by (auto simp: write_db)
next
  case ne: False
  show ?thesis
  proof (cases "db T")
    case None
    have "insert_rows df (anti_join df df) = df"
      using assms(2) by (simp add: anti_join_self insert_rows_Nil)
    then show ?thesis using ne None
      by (auto simp: write_db)
  next
    case (Some t)
    then have cols: "columns t = columns df" using assms(3) by simp
    show ?thesis
    proof (cases "append_binds df t")
      case False
      then show ?thesis using ne Some by (simp add: write_db)
    next
      case True
      let ?t1 = "t\<lparr>rows := rows t @ anti_join df t\<rparr>"
      have t1: "insert_rows t (anti_join df t) = ?t1"
        using assms(1) cols by (rule insert_anti_join)
      have b1: "append_binds df ?t1" using True by (simp add: append_binds_def)
      have "insert_rows ?t1 (anti_join df ?t1) = ?t1"
        by (simp only: anti_join_again [OF assms(2)] insert_rows_Nil)
      then show ?thesis using ne Some True b1
        by (simp add: write_db t1)
    qed
  qed
qed

text \<open>
  Claim C5, as the code has it. After a write the keys of the written table are pairwise
  distinct when the keys of the incoming frame are pairwise distinct and the keys of the table
  stored before, if there is one, were; the frame is a Polars frame with the table's columns.
  Rows without a commitment index (NULL) share no value, as for SQL's \<open>UNIQUE\<close>.
\<close>

theorem unique_after_write:
  assumes "wf_df df" and "distinct (keys df)"
    and "\<forall>t. db T = Some t \<longrightarrow> columns t = columns df \<and> distinct (keys t)"
    and "snd (write_to_duckdb df T db) T = Some t'"
  shows "distinct (keys t')"
proof (cases "is_empty df \<or> \<not> sql_identifier T")
  case True
  then show ?thesis using assms(3,4) by (auto simp: write_db)
next
  case ne: False
  show ?thesis
  proof (cases "db T")
    case None
    then show ?thesis using ne assms(2,4) by (auto simp: write_db)
  next
    case (Some t)
    then have cols: "columns t = columns df" and dt: "distinct (keys t)"
      using assms(3) by simp_all
    show ?thesis
    proof (cases "append_binds df t")
      case False
      then show ?thesis using ne Some assms(4) dt by (auto simp: write_db)
    next
      case True
      have t': "t' = t\<lparr>rows := rows t @ anti_join df t\<rparr>"
        using ne Some True assms(4) insert_anti_join [OF assms(1) cols] by (auto simp: write_db)
      have "distinct (filter (\<lambda>k. k \<noteq> Some Null) (map key_of (anti_join df t)))"
        using assms(2) unfolding anti_join_filter keys_def by (rule distinct_filter_map_filter)
      moreover have "set (keys t) \<inter> set (map key_of (anti_join df t)) = {}"
        by (auto simp: anti_join_filter)
      ultimately show ?thesis using dt by (auto simp: t' keys_append)
    qed
  qed
qed

lemma wf_later_sample: "wf_df later_sample"
  by (simp add: wf_df_def later_sample_def frame_def)

lemma commits_processed_identifier: "sql_identifier ''commits_processed''"
  by (simp add: sql_identifier_def is_ident_start_def is_ident_char_def reserved_words_def
      lower_def lower_char_def)

lemma append_later_sample:
  "snd (write_to_duckdb later_sample ''commits_processed'' sample_db) ''commits_processed''
     = Some appended_sample"
  by (simp add: write_db commits_processed_identifier is_empty_def sample_db_def append_binds_def
      anti_join_def key_match_def insert_rows_def later_sample_def commits_processed_sample_def
      appended_sample_def frame_def)

text \<open>
  Appending \<open>later_sample\<close> to the sample database stores its one new row; appending it again
  changes nothing.
\<close>

theorem write_twice_witness:
  "wf_df later_sample \<and> Some Null \<notin> set (map key_of (rows later_sample)) \<and>
   columns commits_processed_sample = columns later_sample \<and>
   snd (write_to_duckdb later_sample ''commits_processed''
          (snd (write_to_duckdb later_sample ''commits_processed'' sample_db)))
     = snd (write_to_duckdb later_sample ''commits_processed'' sample_db) \<and>
   snd (write_to_duckdb later_sample ''commits_processed'' sample_db) ''commits_processed''
     = Some appended_sample \<and>
   length (rows commits_processed_sample) = 2 \<and> length (rows appended_sample) = 3"
proof -
  have c: "columns commits_processed_sample = columns later_sample"
    by (simp add: commits_processed_sample_def later_sample_def frame_def)
  have n: "Some Null \<notin> set (map key_of (rows later_sample))"
    by (simp add: key_of_def later_sample_def frame_def)
  have h: "\<forall>t. sample_db ''commits_processed'' = Some t \<longrightarrow> columns t = columns later_sample"
    using c by (simp add: sample_db_def)
  have l: "length (rows commits_processed_sample) = 2 \<and> length (rows appended_sample) = 3"
    by (simp add: commits_processed_sample_def appended_sample_def frame_def)
  show ?thesis
    using write_twice [of later_sample sample_db "''commits_processed''", OF wf_later_sample n h]
      wf_later_sample n c append_later_sample l by simp
qed

text \<open>
  The claim as stated fails in two ways. The append statement stores the selected cells by
  position: a frame whose columns are the table's in another order is stored with its cells
  under the wrong names, so its key is not found at the second write and the row is stored
  again. A row without a commitment index matches no stored row, so it is stored again by every
  write.
\<close>

theorem write_twice_counterexample:
  "wf_df swapped_sample \<and> wf_df null_key_sample \<and>
   snd (write_to_duckdb swapped_sample ''commit_stores'' [''commit_stores'' \<mapsto> swapped_table])
       ''commit_stores''
     = Some (frame [''commitmentIndex'', ''bidder'']
               [[StrV ''c1'', StrV ''0xb1''], [StrV ''0xbb'', StrV ''c5'']]) \<and>
   snd (write_to_duckdb swapped_sample ''commit_stores''
          (snd (write_to_duckdb swapped_sample ''commit_stores''
                  [''commit_stores'' \<mapsto> swapped_table])))
       ''commit_stores''
     = Some (frame [''commitmentIndex'', ''bidder'']
               [[StrV ''c1'', StrV ''0xb1''], [StrV ''0xbb'', StrV ''c5''],
                [StrV ''0xbb'', StrV ''c5'']]) \<and>
   snd (write_to_duckdb null_key_sample ''commits_processed'' sample_db) ''commits_processed''
     = Some (frame [''commitmentIndex'', ''block_number'', ''isSlash'']
               [[StrV ''c1'', UIntV 111, BoolV True], [StrV ''c2'', UIntV 110, BoolV False],
                [Null, UIntV 140, BoolV False]]) \<and>
   snd (write_to_duckdb null_key_sample ''commits_processed''
          (snd (write_to_duckdb null_key_sample ''commits_processed'' sample_db)))
       ''commits_processed''
     = Some (frame [''commitmentIndex'', ''block_number'', ''isSlash'']
               [[StrV ''c1'', UIntV 111, BoolV True], [StrV ''c2'', UIntV 110, BoolV False],
                [Null, UIntV 140, BoolV False], [Null, UIntV 140, BoolV False]])"
proof -
  have w: "wf_df swapped_sample \<and> wf_df null_key_sample"
    by (simp add: wf_df_def swapped_sample_def null_key_sample_def frame_def)
  have a: "snd (write_to_duckdb swapped_sample ''commit_stores''
                 [''commit_stores'' \<mapsto> swapped_table]) =
     [''commit_stores'' \<mapsto> frame [''commitmentIndex'', ''bidder'']
               [[StrV ''c1'', StrV ''0xb1''], [StrV ''0xbb'', StrV ''c5'']]]"
    by (simp add: write_db commit_stores_identifier is_empty_def append_binds_def anti_join_def
        key_match_def insert_rows_def swapped_sample_def swapped_table_def frame_def)
  have b: "snd (write_to_duckdb swapped_sample ''commit_stores''
       [''commit_stores'' \<mapsto> frame [''commitmentIndex'', ''bidder'']
               [[StrV ''c1'', StrV ''0xb1''], [StrV ''0xbb'', StrV ''c5'']]]) ''commit_stores''
     = Some (frame [''commitmentIndex'', ''bidder'']
               [[StrV ''c1'', StrV ''0xb1''], [StrV ''0xbb'', StrV ''c5''],
                [StrV ''0xbb'', StrV ''c5'']])"
    by (simp add: write_db commit_stores_identifier is_empty_def append_binds_def anti_join_def
        key_match_def insert_rows_def swapped_sample_def frame_def)
  have c: "snd (write_to_duckdb null_key_sample ''commits_processed'' sample_db) =
     sample_db(''commits_processed'' \<mapsto> frame [''commitmentIndex'', ''block_number'', ''isSlash'']
               [[StrV ''c1'', UIntV 111, BoolV True], [StrV ''c2'', UIntV 110, BoolV False],
                [Null, UIntV 140, BoolV False]])"
    by (simp add: write_db commits_processed_identifier is_empty_def append_binds_def
        anti_join_def key_match_def insert_rows_def null_key_sample_def sample_db_def
        commits_processed_sample_def frame_def)
  have d: "snd (write_to_duckdb null_key_sample ''commits_processed''
       (sample_db(''commits_processed'' \<mapsto> frame [''commitmentIndex'', ''block_number'', ''isSlash'']
               [[StrV ''c1'', UIntV 111, BoolV True], [StrV ''c2'', UIntV 110, BoolV False],
                [Null, UIntV 140, BoolV False]]))) ''commits_processed''
     = Some (frame [''commitmentIndex'', ''block_number'', ''isSlash'']
               [[StrV ''c1'', UIntV 111, BoolV True], [StrV ''c2'', UIntV 110, BoolV False],
                [Null, UIntV 140, BoolV False], [Null, UIntV 140, BoolV False]])"
    by (simp add: write_db commits_processed_identifier is_empty_def append_binds_def
        anti_join_def key_match_def insert_rows_def null_key_sample_def frame_def)
  show ?thesis
    by (simp only: a b c d w) simp
qed

text \<open>The keys \<open>c1, c2\<close> of the stored table and \<open>c1, c3\<close> of the frame give the keys \<open>c1, c2, c3\<close>.\<close>

theorem unique_after_write_witness:
  "wf_df later_sample \<and> distinct (keys later_sample) \<and>
   columns commits_processed_sample = columns later_sample \<and>
   distinct (keys commits_processed_sample) \<and>
   snd (write_to_duckdb later_sample ''commits_processed'' sample_db) ''commits_processed''
     = Some appended_sample \<and>
   distinct (keys appended_sample) \<and>
   keys appended_sample = [Some (StrV ''c1''), Some (StrV ''c2''), Some (StrV ''c3'')]"
proof -
  have c: "columns commits_processed_sample = columns later_sample"
    by (simp add: commits_processed_sample_def later_sample_def frame_def)
  have d1: "distinct (keys later_sample)"
    by (simp add: keys_def key_of_def later_sample_def frame_def)
  have d2: "distinct (keys commits_processed_sample)"
    by (simp add: keys_def key_of_def commits_processed_sample_def frame_def)
  have h: "\<forall>t. sample_db ''commits_processed'' = Some t \<longrightarrow>
             columns t = columns later_sample \<and> distinct (keys t)"
    using c d2 by (simp add: sample_db_def)
  have k: "keys appended_sample = [Some (StrV ''c1''), Some (StrV ''c2''), Some (StrV ''c3'')]"
    by (simp add: keys_def key_of_def appended_sample_def frame_def)
  show ?thesis
    using unique_after_write [of later_sample sample_db "''commits_processed''" appended_sample,
        OF wf_later_sample d1 h append_later_sample]
      wf_later_sample d1 c d2 append_later_sample k by simp
qed

text \<open>
  Claim C5 as stated fails on both paths. A frame with two rows of one key creates a table with
  that key twice, and appended to a stored table without that key it adds both rows: the
  anti-join compares new rows with stored rows only.
\<close>

theorem unique_after_write_counterexample:
  "map_option keys (snd (write_to_duckdb duplicated_sample ''commits_processed'' Map.empty)
                      ''commits_processed'')
     = Some [Some (StrV ''c9''), Some (StrV ''c9'')] \<and>
   map_option keys (snd (write_to_duckdb duplicated_sample ''commits_processed'' sample_db)
                      ''commits_processed'')
     = Some [Some (StrV ''c1''), Some (StrV ''c2''), Some (StrV ''c9''), Some (StrV ''c9'')] \<and>
   \<not> (\<forall>df T db t. snd (write_to_duckdb df T db) T = Some t \<longrightarrow> distinct (keys t))"
proof -
  have a: "map_option keys (snd (write_to_duckdb duplicated_sample ''commits_processed'' Map.empty)
                      ''commits_processed'')
     = Some [Some (StrV ''c9''), Some (StrV ''c9'')]"
    by (simp add: write_db commits_processed_identifier is_empty_def keys_def key_of_def
        duplicated_sample_def frame_def)
  have b: "map_option keys (snd (write_to_duckdb duplicated_sample ''commits_processed'' sample_db)
                      ''commits_processed'')
     = Some [Some (StrV ''c1''), Some (StrV ''c2''), Some (StrV ''c9''), Some (StrV ''c9'')]"
    by (simp add: write_db commits_processed_identifier is_empty_def sample_db_def
        append_binds_def anti_join_def key_match_def
        insert_rows_def keys_def key_of_def duplicated_sample_def commits_processed_sample_def
        frame_def)
  have "\<not> (\<forall>df T db t. snd (write_to_duckdb df T db) T = Some t \<longrightarrow> distinct (keys t))"
  proof
    assume all: "\<forall>df T db t. snd (write_to_duckdb df T db) T = Some t \<longrightarrow> distinct (keys t)"
    obtain t where t: "snd (write_to_duckdb duplicated_sample ''commits_processed'' Map.empty)
                         ''commits_processed'' = Some t"
      and k: "keys t = [Some (StrV ''c9''), Some (StrV ''c9'')]"
      using a by auto
    from all t have "distinct (keys t)" by blast
    then show False by (simp add: k)
  qed
  then show ?thesis using a b by simp
qed

subsection \<open>Join engine\<close>

lemma bind_Inr: "bind m f = Inr y \<longleftrightarrow> (\<exists>x. m = Inr x \<and> f x = Inr y)"
  by (cases m) (simp_all add: bind_def)

lemma getitem_Inr: "getitem d k = Inr v \<longleftrightarrow> d k = Some v"
  by (simp add: getitem_def split: option.splits)

lemma traverse_Inr:
  "traverse f xs = Inr ys \<Longrightarrow> list_all2 (\<lambda>x y. f x = Inr y) xs ys"
  by (induction xs arbitrary: ys) (auto simp: bind_Inr)

lemma map_of_replaced:
  "map_of (map (\<lambda>(c, x). if c = name then (c, w) else (c, x)) r) c =
     (if c = name then (if name \<in> fst ` set r then Some w else None) else map_of r c)"
  by (induction r) (force simp: image_iff)+

lemma map_of_set_cell:
  "map_of (set_cell r name w) c = (if c = name then Some w else map_of r c)"
proof (cases "name \<in> set (map fst r)")
  case True
  then show ?thesis
    by (simp add: set_cell_def map_of_replaced)
next
  case False
  then have "map_of r name = None" by (simp add: map_of_eq_None_iff)
  then show ?thesis using False
    by (auto simp: set_cell_def map_add_def split: option.splits)
qed

lemma map_of_project:
  "map_of (List.map_filter (\<lambda>c. map_option (Pair c) (map_of r c)) names) c =
     (if c \<in> set names then map_of r c else None)"
  by (induction names) (auto simp: List.map_filter_simps split: option.splits)

lemma map_of_joined:
  "map_of l c = Some v \<Longrightarrow> map_of (l @ q) c = Some v"
  by (simp add: map_add_def)

text \<open>Where the rows of each operator's result come from.\<close>

lemma join_rowsD:
  assumes "join L R k = Inr J" and "r \<in> set (rows J)"
  shows "\<exists>l \<in> set (rows L). \<exists>q \<in> set (rows R).
           r = l @ right_part L k q \<and> key_match (map_of q k) (map_of l k)"
proof -
  have "rows J = join_rows L R k"
    using assms(1) by (auto simp: join_def Let_def split: if_splits)
  then show ?thesis using assms(2) by (auto simp: join_rows_def)
qed

lemma join_columns:
  "join L R k = Inr J \<Longrightarrow> k \<in> set (columns L) \<and> k \<in> set (columns R)"
  by (auto simp: join_def Let_def split: if_splits)

lemma with_columns_rows:
  assumes "with_columns df src f name = Inr D"
  shows "list_all2 (\<lambda>r0 r. \<exists>v w. map_of r0 src = Some v \<and> f v = Inr w \<and> r = set_cell r0 name w)
           (rows df) (rows D)"
proof -
  from assms obtain rs where
    t: "traverse (\<lambda>r. case map_of r src of
                        None \<Rightarrow> Inl (ColumnNotFoundError src)
                      | Some v \<Rightarrow> bind (f v) (\<lambda>w. Inr (set_cell r name w))) (rows df) = Inr rs"
    and D: "rows D = rs"
    by (auto simp: with_columns_def bind_Inr split: if_splits)
  have "list_all2 (\<lambda>r0 r. (case map_of r0 src of
                        None \<Rightarrow> Inl (ColumnNotFoundError src)
                      | Some v \<Rightarrow> bind (f v) (\<lambda>w. Inr (set_cell r0 name w))) = Inr r) (rows df) rs"
    using traverse_Inr [OF t] .
  then show ?thesis unfolding D
    by (rule list_all2_mono) (auto simp: bind_Inr split: option.splits)
qed

lemma with_columnsD:
  assumes "with_columns df src f name = Inr D" and "r \<in> set (rows D)"
  shows "\<exists>r0 \<in> set (rows df). \<exists>v w. map_of r0 src = Some v \<and> f v = Inr w \<and> r = set_cell r0 name w"
proof -
  let ?P = "\<lambda>r0 r. \<exists>v w. map_of r0 src = Some v \<and> f v = Inr w \<and> r = set_cell r0 name w"
  have all: "list_all2 ?P (rows df) (rows D)"
    using assms(1) by (rule with_columns_rows)
  from assms(2) obtain i where i: "i < length (rows D)" "r = rows D ! i"
    by (auto simp: in_set_conv_nth)
  have "length (rows df) = length (rows D)" using all by (rule list_all2_lengthD)
  then have "rows df ! i \<in> set (rows df)" using i(1) by simp
  moreover have "?P (rows df ! i) r" using all i by (simp add: list_all2_conv_all_nth)
  ultimately show ?thesis by blast
qed

lemma select_Inr:
  assumes "select df names = Inr D"
  shows "columns D = names"
    and "rows D = map (\<lambda>r. List.map_filter (\<lambda>c. map_option (Pair c) (map_of r c)) names) (rows df)"
  using assms by (auto simp: select_def split: list.splits if_splits)

lemma join_dataframes_stages:
  assumes "join_dataframes d = Inr out"
  obtains A B C j1 j2 P j3 j4 where
    "d ''encrypted_stores'' = Some A" "d ''commit_stores'' = Some B"
    "d ''commits_processed'' = Some C"
    "join A B ''commitmentIndex'' = Inr j1"
    "with_columns j1 ''txnHash'' (lit_plus ''0x'') ''txnHash'' = Inr j2"
    "select C [''commitmentIndex'', ''isSlash''] = Inr P"
    "join j2 P ''commitmentIndex'' = Inr j3"
    "with_columns j3 ''block_number'' Inr ''block_number_encrypted'' = Inr j4"
    "select j4 commitments_columns = Inr out"
  using assms unfolding join_dataframes_def bind_Inr getitem_Inr by blast




text \<open>Keys through the operators.\<close>

lemma key_in_columns [simp]: "''commitmentIndex'' \<in> set commitments_columns"
  by (simp add: commitments_columns_def)

lemma list_all2_map_eq:
  "list_all2 (\<lambda>x y. f x = g y) xs ys \<Longrightarrow> map f xs = map g ys"
  by (induction rule: list_all2_induct) simp_all

lemma row_keys_with_columns:
  assumes "with_columns df src f name = Inr D" and "name \<noteq> ''commitmentIndex''"
  shows "map key_of (rows D) = map key_of (rows df)"
proof -
  have "list_all2 (\<lambda>r0 r. key_of r0 = key_of r) (rows df) (rows D)"
    using with_columns_rows [OF assms(1)]
    by (rule list_all2_mono) (auto simp: key_of_def map_of_set_cell assms(2) [symmetric])
  then show ?thesis by (rule list_all2_map_eq [symmetric])
qed

lemma row_keys_select:
  assumes "select df names = Inr D" and "''commitmentIndex'' \<in> set names"
  shows "map key_of (rows D) = map key_of (rows df)"
  by (simp add: select_Inr(2) [OF assms(1)] key_of_def map_of_project assms(2) comp_def)

lemma filter_key_le1:
  "distinct (filter Q (map f xs)) \<Longrightarrow> Q y \<Longrightarrow> length (filter (\<lambda>x. f x = y) xs) \<le> Suc 0"
proof (induction xs)
  case Nil
  then show ?case by simp
next
  case (Cons a xs)
  show ?case
  proof (cases "f a = y")
    case True
    then have "y \<notin> f ` set xs" using Cons.prems by auto
    then have "filter (\<lambda>x. f x = y) xs = []" by (auto simp: filter_empty_conv)
    then show ?thesis using True by simp
  next
    case False
    then show ?thesis using Cons by (simp split: if_splits)
  qed
qed

lemma key_of_joined: "key_of l \<noteq> None \<Longrightarrow> key_of (l @ q) = key_of l"
  by (auto simp: key_of_def map_add_def split: option.splits)

lemma join_rows_keys:
  assumes "\<forall>l \<in> set ls. key_of l \<noteq> None"
    and "distinct (filter (\<lambda>k. k \<noteq> Some Null) (map key_of ls))"
    and "distinct (filter (\<lambda>k. k \<noteq> Some Null) (map key_of qs))"
  shows "distinct (map key_of (concat (map (\<lambda>l. map (\<lambda>q. l @ g q)
             (filter (\<lambda>q. key_match (map_of q ''commitmentIndex'') (map_of l ''commitmentIndex''))
                qs)) ls)))
         \<and> set (map key_of (concat (map (\<lambda>l. map (\<lambda>q. l @ g q)
             (filter (\<lambda>q. key_match (map_of q ''commitmentIndex'') (map_of l ''commitmentIndex''))
                qs)) ls)))
           \<subseteq> set (filter (\<lambda>k. k \<noteq> Some Null) (map key_of ls))
             \<inter> set (filter (\<lambda>k. k \<noteq> Some Null) (map key_of qs))"
  using assms(1,2)
proof (induction ls)
  case Nil
  then show ?case by simp
next
  case (Cons l ls)
  let ?m = "filter (\<lambda>q. key_match (map_of q ''commitmentIndex'') (map_of l ''commitmentIndex'')) qs"
  let ?J = "concat (map (\<lambda>l. map (\<lambda>q. l @ g q)
             (filter (\<lambda>q. key_match (map_of q ''commitmentIndex'') (map_of l ''commitmentIndex''))
                qs)) ls)"
  have some: "key_of l \<noteq> None" using Cons.prems(1) by simp
  have ks: "map key_of (map (\<lambda>q. l @ g q) ?m) = map (\<lambda>q. key_of l) ?m"
    using some by (simp add: key_of_joined)
  have dl: "distinct (filter (\<lambda>k. k \<noteq> Some Null) (map key_of ls))"
    using Cons.prems(2) by (simp split: if_splits)
  have ih: "distinct (map key_of ?J) \<and>
            set (map key_of ?J) \<subseteq> set (filter (\<lambda>k. k \<noteq> Some Null) (map key_of ls))
               \<inter> set (filter (\<lambda>k. k \<noteq> Some Null) (map key_of qs))"
    using Cons.IH Cons.prems(1) dl by simp
  show ?case
  proof (cases "key_of l = Some Null")
    case True
    then have "?m = []" by (auto simp: key_match_def key_of_def filter_empty_conv)
    then show ?thesis using ih True by auto
  next
    case False
    have m: "?m = filter (\<lambda>q. key_of q = key_of l) qs"
      using False by (intro filter_cong) (auto simp: key_match_def key_of_def)
    have "length ?m \<le> Suc 0"
      unfolding m using assms(3) False by (rule filter_key_le1)
    then have d: "distinct (map (\<lambda>q. key_of l) ?m)"
      by (cases ?m) (simp_all del: filter.simps)
    have sub: "set (map (\<lambda>q. key_of l) ?m)
                 \<subseteq> {key_of l} \<inter> set (filter (\<lambda>k. k \<noteq> Some Null) (map key_of qs))"
    proof
      fix x assume "x \<in> set (map (\<lambda>q. key_of l) ?m)"
      then obtain q where q: "q \<in> set qs" "key_of q = key_of l" and x: "x = key_of l"
        unfolding m by auto
      have "key_of q \<in> key_of ` set qs" using q(1) by (rule imageI)
      moreover have "key_of q \<noteq> Some Null" using q(2) False by simp
      ultimately have "key_of q \<in> set (filter (\<lambda>k. k \<noteq> Some Null) (map key_of qs))"
        by simp
      then show "x \<in> {key_of l} \<inter> set (filter (\<lambda>k. k \<noteq> Some Null) (map key_of qs))"
        using q(2) x by simp
    qed
    have notin: "key_of l \<notin> set (filter (\<lambda>k. k \<noteq> Some Null) (map key_of ls))"
      using Cons.prems(2) False by simp
    have fl: "set (filter (\<lambda>k. k \<noteq> Some Null) (map key_of (l # ls)))
                = insert (key_of l) (set (filter (\<lambda>k. k \<noteq> Some Null) (map key_of ls)))"
      using False by simp
    have c: "map key_of (concat (map (\<lambda>l. map (\<lambda>q. l @ g q)
             (filter (\<lambda>q. key_match (map_of q ''commitmentIndex'') (map_of l ''commitmentIndex''))
                qs)) (l # ls))) = map (\<lambda>q. key_of l) ?m @ map key_of ?J"
      by (simp only: list.map concat.simps map_append ks)
    show ?thesis
      unfolding c fl distinct_append set_append using ih d sub notin by blast
  qed
qed

lemma keys_join:
  assumes "join L R ''commitmentIndex'' = Inr J" and "\<forall>l \<in> set (rows L). key_of l \<noteq> None"
    and "distinct (keys L)" and "distinct (keys R)"
  shows "distinct (map key_of (rows J))"
    and "set (map key_of (rows J)) \<subseteq> set (keys L) \<inter> set (keys R)"
proof -
  have J: "rows J = join_rows L R ''commitmentIndex''"
    using assms(1) by (auto simp: join_def Let_def split: if_splits)
  note k = join_rows_keys [OF assms(2) assms(3) [unfolded keys_def] assms(4) [unfolded keys_def],
      of "right_part L ''commitmentIndex''"]
  show "distinct (map key_of (rows J))" using k by (simp add: J join_rows_def)
  show "set (map key_of (rows J)) \<subseteq> set (keys L) \<inter> set (keys R)"
    using k by (simp add: keys_def J join_rows_def)
qed

lemma wf_key_present:
  assumes "wf_df A" and "c \<in> set (columns A)" and "a \<in> set (rows A)"
  shows "map_of a c \<noteq> None"
proof -
  have "map fst a = columns A" using assms(1,3) by (simp add: wf_df_def)
  then have "c \<in> fst ` set a" using assms(2) by (metis set_map)
  then show ?thesis by (simp add: map_of_eq_None_iff)
qed

lemma length_le_of_keys:
  assumes "distinct (map key_of (rows J))" and "set (map key_of (rows J)) \<subseteq> set (keys X)"
  shows "length (rows J) \<le> length (rows X)"
proof -
  have "length (rows J) = card (set (map key_of (rows J)))"
    using distinct_card [OF assms(1)] by simp
  also have "\<dots> \<le> card (set (keys X))" using assms(2) by (simp add: card_mono)
  also have "\<dots> \<le> length (keys X)" by (rule card_length)
  also have "\<dots> \<le> length (rows X)" by (simp add: keys_def le_trans [OF length_filter_le])
  finally show ?thesis .
qed

text \<open>
  Claim C2. For three Polars frames in which \<open>commitmentIndex\<close> is unique per frame, a view that
  \<open>join_dataframes\<close> returns has at most as many rows as the smallest of the three, holds no row
  twice, and the \<open>commitmentIndex\<close> of each of its rows occurs in all three inputs.
\<close>

theorem join_bounded:
  assumes "join_dataframes d = Inr out"
    and "d ''encrypted_stores'' = Some A" and "d ''commit_stores'' = Some B"
    and "d ''commits_processed'' = Some C"
    and "wf_df A" and "distinct (keys A)" and "distinct (keys B)" and "distinct (keys C)"
  shows "length (rows out) \<le> min (length (rows A)) (min (length (rows B)) (length (rows C))) \<and>
         distinct (rows out) \<and>
         (\<forall>r \<in> set (rows out). key_of r \<in> set (keys A) \<and> key_of r \<in> set (keys B) \<and>
                                  key_of r \<in> set (keys C))"
proof -
  from assms(1) obtain A' B' C' j1 j2 P j3 j4 where
    A': "d ''encrypted_stores'' = Some A'" and B': "d ''commit_stores'' = Some B'"
    and C': "d ''commits_processed'' = Some C'"
    and j1: "join A' B' ''commitmentIndex'' = Inr j1"
    and j2: "with_columns j1 ''txnHash'' (lit_plus ''0x'') ''txnHash'' = Inr j2"
    and P: "select C' [''commitmentIndex'', ''isSlash''] = Inr P"
    and j3: "join j2 P ''commitmentIndex'' = Inr j3"
    and j4: "with_columns j3 ''block_number'' Inr ''block_number_encrypted'' = Inr j4"
    and out: "select j4 commitments_columns = Inr out"
    by (rule join_dataframes_stages)
  have eq: "A' = A" "B' = B" "C' = C" using A' B' C' assms(2-4) by simp_all
  note j1 = j1 [unfolded eq] and P = P [unfolded eq]
  have kA: "\<forall>a \<in> set (rows A). key_of a \<noteq> None"
    using wf_key_present [OF assms(5)] join_columns [OF j1] by (simp add: key_of_def)
  have d1: "distinct (map key_of (rows j1))"
    and s1: "set (map key_of (rows j1)) \<subseteq> set (keys A) \<inter> set (keys B)"
    using keys_join [OF j1 kA assms(6,7)] by simp_all
  have k2: "map key_of (rows j2) = map key_of (rows j1)"
    using j2 by (rule row_keys_with_columns) simp
  have kP: "keys P = keys C"
    unfolding keys_def using row_keys_select [OF P] by simp
  have n2: "\<forall>l \<in> set (rows j2). key_of l \<noteq> None"
  proof
    fix l assume "l \<in> set (rows j2)"
    then have "key_of l \<in> set (map key_of (rows j2))" by simp
    then have "key_of l \<in> set (keys A)" using s1 k2 by auto
    then show "key_of l \<noteq> None" using kA by (auto simp: keys_def)
  qed
  have d2: "distinct (keys j2)"
    unfolding keys_def k2 using d1 by (rule distinct_filter)
  have s2: "set (keys j2) \<subseteq> set (keys A) \<inter> set (keys B)"
    using s1 by (auto simp: keys_def k2)
  have d3: "distinct (map key_of (rows j3))"
    and s3: "set (map key_of (rows j3)) \<subseteq> set (keys j2) \<inter> set (keys P)"
    using keys_join [OF j3 n2 d2] assms(8) by (simp_all add: kP)
  have k4: "map key_of (rows j4) = map key_of (rows j3)"
    using j4 by (rule row_keys_with_columns) simp
  have ko: "map key_of (rows out) = map key_of (rows j4)"
    using out by (rule row_keys_select) simp
  have d: "distinct (map key_of (rows out))" using d3 by (simp add: ko k4)
  have s: "set (map key_of (rows out)) \<subseteq> set (keys A) \<inter> set (keys B) \<inter> set (keys C)"
    using s3 s2 unfolding ko k4 kP by blast
  have "length (rows out) \<le> length (rows A)" "length (rows out) \<le> length (rows B)"
    "length (rows out) \<le> length (rows C)"
    using d s by (auto intro!: length_le_of_keys)
  moreover have "distinct (rows out)"
    using d by (simp add: distinct_map)
  moreover have "\<forall>r \<in> set (rows out). key_of r \<in> set (keys A) \<and> key_of r \<in> set (keys B) \<and>
                                  key_of r \<in> set (keys C)"
    using s by auto
  ultimately show ?thesis by simp
qed

lemma bne_in_columns [simp]: "''block_number_encrypted'' \<in> set commitments_columns"
  by (simp add: commitments_columns_def)

text \<open>
  Claim C8, as the code has it. Whenever \<open>join_dataframes\<close> returns a view, its columns are the
  fixed list of the \<open>select\<close> call, in that order: 18 names, not 17. When \<open>encrypted_stores\<close> has a
  \<open>block_number\<close> column, \<open>block_number_encrypted\<close> of every row is the \<open>block_number\<close> of the
  \<open>encrypted_stores\<close> row with the same key.
\<close>

theorem commitments_view_columns:
  assumes "join_dataframes d = Inr out"
  shows "columns out =
           [''block_number_encrypted'', ''timestamp'', ''txnHash'', ''bid'', ''commiter'',
            ''bidder'', ''isSlash'', ''decayStartTimeStamp'', ''decayEndTimeStamp'',
            ''dispatchTimestamp'', ''commitmentHash'', ''commitmentIndex'', ''commitmentDigest'',
            ''commitmentSignature'', ''revertingTxHashes'', ''bidHash'', ''bidSignature'',
            ''sharedSecretKey''] \<and>
         length (columns out) = 18 \<and>
         (\<forall>A. d ''encrypted_stores'' = Some A \<and> wf_df A \<and> ''block_number'' \<in> set (columns A) \<longrightarrow>
            (\<forall>r \<in> set (rows out). \<exists>a \<in> set (rows A).
               key_of a = key_of r \<and>
               map_of r ''block_number_encrypted'' = map_of a ''block_number''))"
proof -
  from assms obtain A' B C j1 j2 P j3 j4 where
    A': "d ''encrypted_stores'' = Some A'"
    and j1: "join A' B ''commitmentIndex'' = Inr j1"
    and j2: "with_columns j1 ''txnHash'' (lit_plus ''0x'') ''txnHash'' = Inr j2"
    and j3: "join j2 P ''commitmentIndex'' = Inr j3"
    and j4: "with_columns j3 ''block_number'' Inr ''block_number_encrypted'' = Inr j4"
    and out: "select j4 commitments_columns = Inr out"
    by (rule join_dataframes_stages)
  have cols: "columns out = commitments_columns" using out by (rule select_Inr(1))
  have prov: "\<exists>a \<in> set (rows A). key_of a = key_of r \<and>
               map_of r ''block_number_encrypted'' = map_of a ''block_number''"
    if A: "d ''encrypted_stores'' = Some A" and wf: "wf_df A"
      and bn: "''block_number'' \<in> set (columns A)" and r: "r \<in> set (rows out)" for A r
  proof -
    have eq: "A' = A" using A A' by simp
    note j1 = j1 [unfolded eq]
    from r select_Inr(2) [OF out] obtain r4 where
      r4: "r4 \<in> set (rows j4)"
      and rk: "key_of r = key_of r4"
      and rb: "map_of r ''block_number_encrypted'' = map_of r4 ''block_number_encrypted''"
      by (auto simp: map_of_project key_of_def)
    from with_columnsD [OF j4 r4] obtain r3 v3 where
      r3: "r3 \<in> set (rows j3)" and v3: "map_of r3 ''block_number'' = Some v3"
      and r4': "r4 = set_cell r3 ''block_number_encrypted'' v3"
      by auto
    from join_rowsD [OF j3 r3] obtain l2 q where
      l2: "l2 \<in> set (rows j2)" and r3': "r3 = l2 @ right_part j2 ''commitmentIndex'' q"
      by blast
    from with_columnsD [OF j2 l2] obtain l1 w where
      l1: "l1 \<in> set (rows j1)" and l2': "l2 = set_cell l1 ''txnHash'' w"
      by blast
    from join_rowsD [OF j1 l1] obtain a b where
      a: "a \<in> set (rows A)" and l1': "l1 = a @ right_part A ''commitmentIndex'' b"
      by blast
    have ka: "key_of a \<noteq> None"
      using wf_key_present [OF wf _ a] join_columns [OF j1] by (simp add: key_of_def)
    from wf_key_present [OF wf bn a] obtain n where n: "map_of a ''block_number'' = Some n"
      by auto
    have k1: "key_of l1 = key_of a" unfolding l1' using ka by (rule key_of_joined)
    have k2: "key_of l2 = key_of a" by (simp add: l2' key_of_def map_of_set_cell k1 [unfolded key_of_def])
    have k3: "key_of r3 = key_of a" unfolding r3' using ka k2 by (simp add: key_of_joined)
    have k4: "key_of r4 = key_of a" by (simp add: r4' key_of_def map_of_set_cell k3 [unfolded key_of_def])
    have b1: "map_of l1 ''block_number'' = Some n" unfolding l1' using n by (rule map_of_joined)
    have b2: "map_of l2 ''block_number'' = Some n" by (simp add: l2' map_of_set_cell b1)
    have b3: "map_of r3 ''block_number'' = Some n" unfolding r3' using b2 by (rule map_of_joined)
    have "map_of r4 ''block_number_encrypted'' = Some n"
      using v3 b3 by (simp add: r4' map_of_set_cell)
    then show ?thesis using a rk rb k4 n by auto
  qed
  show ?thesis
  proof (intro conjI allI impI ballI)
    show "columns out =
           [''block_number_encrypted'', ''timestamp'', ''txnHash'', ''bid'', ''commiter'',
            ''bidder'', ''isSlash'', ''decayStartTimeStamp'', ''decayEndTimeStamp'',
            ''dispatchTimestamp'', ''commitmentHash'', ''commitmentIndex'', ''commitmentDigest'',
            ''commitmentSignature'', ''revertingTxHashes'', ''bidHash'', ''bidSignature'',
            ''sharedSecretKey'']"
      by (simp only: cols commitments_columns_def)
    show "length (columns out) = 18"
      by (simp add: cols commitments_columns_def)
  next
    fix A r
    assume "d ''encrypted_stores'' = Some A \<and> wf_df A \<and> ''block_number'' \<in> set (columns A)"
      and "r \<in> set (rows out)"
    then show "\<exists>a \<in> set (rows A). key_of a = key_of r \<and>
               map_of r ''block_number_encrypted'' = map_of a ''block_number''"
      using prov by blast
  qed
qed

text \<open>The view of the sample database.\<close>

lemma join_sample: "join_dataframes sample_db = Inr commitments_sample"
  by (simp add: join_dataframes_def bind_def getitem_def join_def keys_clash_def column_cells_def
      key_match_def
      right_name_def right_part_def join_rows_def with_columns_def set_cell_def select_def
      commitments_columns_def List.map_filter_def sample_db_def encrypted_stores_sample_def
      commit_stores_sample_def commits_processed_sample_def commitments_sample_def frame_def)

lemma wf_encrypted_stores_sample: "wf_df encrypted_stores_sample"
  by (simp add: wf_df_def encrypted_stores_sample_def frame_def)

lemma sample_tables:
  "sample_db ''encrypted_stores'' = Some encrypted_stores_sample"
  "sample_db ''commit_stores'' = Some commit_stores_sample"
  "sample_db ''commits_processed'' = Some commits_processed_sample"
  by (simp_all add: sample_db_def)

lemma sample_keys:
  "keys encrypted_stores_sample = [Some (StrV ''c1''), Some (StrV ''c2''), Some (StrV ''c3'')]"
  "keys commit_stores_sample = [Some (StrV ''c1''), Some (StrV ''c2'')]"
  "keys commits_processed_sample = [Some (StrV ''c1''), Some (StrV ''c2'')]"
  "keys commitments_sample = [Some (StrV ''c1''), Some (StrV ''c2'')]"
  by (simp_all add: keys_def key_of_def encrypted_stores_sample_def commit_stores_sample_def
      commits_processed_sample_def commitments_sample_def commitments_columns_def frame_def)

text \<open>
  The sample tables have 3, 2 and 2 rows with the keys \<open>c1, c2, c3\<close>, \<open>c1, c2\<close> and \<open>c1, c2\<close>; the
  view has the two rows of \<open>c1\<close> and \<open>c2\<close>.
\<close>

theorem join_bounded_witness:
  "join_dataframes sample_db = Inr commitments_sample \<and> wf_df encrypted_stores_sample \<and>
   distinct (keys encrypted_stores_sample) \<and> distinct (keys commit_stores_sample) \<and>
   distinct (keys commits_processed_sample) \<and>
   length (rows commitments_sample) \<le> min (length (rows encrypted_stores_sample))
     (min (length (rows commit_stores_sample)) (length (rows commits_processed_sample))) \<and>
   length (rows commitments_sample) = 2 \<and>
   distinct (rows commitments_sample) \<and>
   list_all (\<lambda>r. key_of r \<in> set (keys encrypted_stores_sample) \<and>
                  key_of r \<in> set (keys commit_stores_sample) \<and>
                  key_of r \<in> set (keys commits_processed_sample)) (rows commitments_sample)"
proof -
  have d: "distinct (keys encrypted_stores_sample)" "distinct (keys commit_stores_sample)"
    "distinct (keys commits_processed_sample)"
    by (simp_all add: sample_keys)
  have l: "length (rows commitments_sample) = 2"
    by (simp add: commitments_sample_def frame_def)
  show ?thesis
    using join_bounded [OF join_sample sample_tables wf_encrypted_stores_sample d]
      join_sample wf_encrypted_stores_sample d l
    by (simp add: list_all_iff)
qed




text \<open>The sample view has the 18 columns, and blocks 100 and 101 of \<open>encrypted_stores\<close>.\<close>

theorem commitments_view_columns_witness:
  "join_dataframes sample_db = Inr commitments_sample \<and>
   length (columns commitments_sample) = 18 \<and>
   hd (columns commitments_sample) = ''block_number_encrypted'' \<and>
   wf_df encrypted_stores_sample \<and> ''block_number'' \<in> set (columns encrypted_stores_sample) \<and>
   list_all (\<lambda>r. \<exists>a \<in> set (rows encrypted_stores_sample).
                    key_of a = key_of r \<and>
                    map_of r ''block_number_encrypted'' = map_of a ''block_number'')
            (rows commitments_sample) \<and>
   map (\<lambda>r. map_of r ''block_number_encrypted'') (rows commitments_sample)
     = [Some (UIntV 100), Some (UIntV 101)]"
proof -
  have b: "''block_number'' \<in> set (columns encrypted_stores_sample)"
    by (simp add: encrypted_stores_sample_def frame_def)
  have v: "map (\<lambda>r. map_of r ''block_number_encrypted'') (rows commitments_sample)
     = [Some (UIntV 100), Some (UIntV 101)]"
    by (simp add: commitments_sample_def commitments_columns_def frame_def)
  note t = commitments_view_columns [OF join_sample]
  have h: "hd (columns commitments_sample) = ''block_number_encrypted''"
    using t by simp
  have a: "list_all (\<lambda>r. \<exists>a \<in> set (rows encrypted_stores_sample).
                    key_of a = key_of r \<and>
                    map_of r ''block_number_encrypted'' = map_of a ''block_number'')
            (rows commitments_sample)"
    using t sample_tables(1) wf_encrypted_stores_sample b unfolding list_all_iff by blast
  show ?thesis
    using t join_sample wf_encrypted_stores_sample b v h a by simp
qed

text \<open>Claim C8 as stated fails: the view of the sample database has 18 columns, not 17.\<close>

theorem commitments_view_columns_counterexample:
  "join_dataframes sample_db = Inr commitments_sample \<and>
   length (columns commitments_sample) = 18 \<and>
   \<not> (\<forall>d out. join_dataframes d = Inr out \<longrightarrow> length (columns out) = 17)"
proof -
  have l: "length (columns commitments_sample) = 18"
    by (simp add: commitments_sample_def commitments_columns_def frame_def)
  have "\<not> (\<forall>d out. join_dataframes d = Inr out \<longrightarrow> length (columns out) = 17)"
  proof
    assume "\<forall>d out. join_dataframes d = Inr out \<longrightarrow> length (columns out) = 17"
    then have "length (columns commitments_sample) = 17" using join_sample by blast
    then show False using l by simp
  qed
  then show ?thesis using join_sample l by simp
qed

subsection \<open>Load and join\<close>

lemma encrypted_stores_identifier: "sql_identifier ''encrypted_stores''"
  by (simp add: sql_identifier_def is_ident_start_def is_ident_char_def reserved_words_def
      lower_def lower_char_def)

lemma read_db_free:
  "read_db fl fn ts 5 d b (\<lambda>k. None) db =
     \<lparr>result = read_tables db ts Map.empty, connects = 1, slept = []\<rparr>"
  by (simp add: read_db_def read_db_loop_ok)

lemma read_view_tables:
  "db ''encrypted_stores'' = Some A \<Longrightarrow> db ''commit_stores'' = Some B \<Longrightarrow>
   db ''commits_processed'' = Some C \<Longrightarrow>
   read_tables db view_tables Map.empty =
     Inr [''encrypted_stores'' \<mapsto> A, ''commit_stores'' \<mapsto> B, ''commits_processed'' \<mapsto> C]"
  by (simp add: view_tables_def select_all_def bind_def encrypted_stores_identifier
      commit_stores_identifier commits_processed_identifier)

lemma join_empty_tables:
  "join_dataframes [''encrypted_stores'' \<mapsto> encrypted_stores_sample\<lparr>rows := []\<rparr>,
                    ''commit_stores'' \<mapsto> commit_stores_sample\<lparr>rows := []\<rparr>,
                    ''commits_processed'' \<mapsto> commits_processed_sample\<lparr>rows := []\<rparr>]
     = Inr \<lparr>columns = commitments_columns, rows = []\<rparr>"
  by (simp add: join_dataframes_def bind_def getitem_def join_def keys_clash_def column_cells_def
      right_name_def right_part_def join_rows_def with_columns_def set_cell_def select_def
      commitments_columns_def List.map_filter_def encrypted_stores_sample_def
      commit_stores_sample_def commits_processed_sample_def frame_def)

lemma load_empty_tables:
  "bind (result (read_db fl fn view_tables 5 d b (\<lambda>k. None) empty_tables_db)) join_dataframes
     = Inr \<lparr>columns = commitments_columns, rows = []\<rparr>"
proof -
  have "read_tables empty_tables_db view_tables Map.empty =
     Inr [''encrypted_stores'' \<mapsto> encrypted_stores_sample\<lparr>rows := []\<rparr>,
          ''commit_stores'' \<mapsto> commit_stores_sample\<lparr>rows := []\<rparr>,
          ''commits_processed'' \<mapsto> commits_processed_sample\<lparr>rows := []\<rparr>]"
    by (rule read_view_tables) (simp_all add: empty_tables_db_def)
  then show ?thesis
    by (simp add: read_db_free bind_def join_empty_tables)
qed

lemma load_missing_tables:
  "bind (result (read_db fl fn view_tables 5 d b (\<lambda>k. None) Map.empty)) join_dataframes
     = Inl (CatalogException ''encrypted_stores'')"
  by (simp add: read_db_free view_tables_def select_all_def bind_def encrypted_stores_identifier)

text \<open>
  Claim C9. \<open>load_and_join_data\<close> always returns a frame and never raises: when the read or
  the join raises, the result is the empty frame \<open>pl.DataFrame()\<close>. An empty result is ambiguous:
  it is returned after an exception (here for a database without the tables) and also without
  any exception (here for tables without rows).
\<close>

theorem load_and_join_total:
  "(\<exists>df. load_and_join_data fl fn ts faults db = Inr df) \<and>
   ((\<exists>e. bind (result (read_db fl fn ts 5 (lit_1_0 fl) (lit_2_0 fl) faults db)) join_dataframes
           = Inl e) \<longrightarrow>
      load_and_join_data fl fn ts faults db = Inr DataFrame) \<and>
   is_empty DataFrame \<and>
   (\<exists>db1 db2 x y.
      (\<exists>e. bind (result (read_db fl fn view_tables 5 (lit_1_0 fl) (lit_2_0 fl) (\<lambda>k. None) db1))
                join_dataframes = Inl e) \<and>
      bind (result (read_db fl fn view_tables 5 (lit_1_0 fl) (lit_2_0 fl) (\<lambda>k. None) db2))
           join_dataframes = Inr y \<and>
      load_and_join_data fl fn view_tables (\<lambda>k. None) db1 = Inr x \<and> is_empty x \<and>
      load_and_join_data fl fn view_tables (\<lambda>k. None) db2 = Inr y \<and> is_empty y)"
proof (intro conjI impI)
  show "\<exists>df. load_and_join_data fl fn ts faults db = Inr df"
    by (simp add: load_and_join_data_def split: sum.splits)
next
  assume "\<exists>e. bind (result (read_db fl fn ts 5 (lit_1_0 fl) (lit_2_0 fl) faults db))
                join_dataframes = Inl e"
  then show "load_and_join_data fl fn ts faults db = Inr DataFrame"
    by (auto simp: load_and_join_data_def)
next
  show "is_empty DataFrame" by (simp add: is_empty_def DataFrame_def)
next
  have 1: "\<exists>e. bind (result (read_db fl fn view_tables 5 (lit_1_0 fl) (lit_2_0 fl) (\<lambda>k. None)
                               Map.empty)) join_dataframes
             = Inl e"
    by (intro exI) (rule load_missing_tables)
  have 2: "load_and_join_data fl fn view_tables (\<lambda>k. None) Map.empty = Inr DataFrame"
    by (simp add: load_and_join_data_def load_missing_tables)
  have 3: "load_and_join_data fl fn view_tables (\<lambda>k. None) empty_tables_db
             = Inr \<lparr>columns = commitments_columns, rows = []\<rparr>"
    by (simp add: load_and_join_data_def load_empty_tables)
  have 5: "bind (result (read_db fl fn view_tables 5 (lit_1_0 fl) (lit_2_0 fl) (\<lambda>k. None)
                          empty_tables_db)) join_dataframes
             = Inr \<lparr>columns = commitments_columns, rows = []\<rparr>"
    by (rule load_empty_tables)
  have 4: "is_empty DataFrame" "is_empty \<lparr>columns = commitments_columns, rows = []\<rparr>"
    by (simp_all add: is_empty_def DataFrame_def)
  show "\<exists>db1 db2 x y.
      (\<exists>e. bind (result (read_db fl fn view_tables 5 (lit_1_0 fl) (lit_2_0 fl) (\<lambda>k. None) db1))
                join_dataframes = Inl e) \<and>
      bind (result (read_db fl fn view_tables 5 (lit_1_0 fl) (lit_2_0 fl) (\<lambda>k. None) db2))
           join_dataframes = Inr y \<and>
      load_and_join_data fl fn view_tables (\<lambda>k. None) db1 = Inr x \<and> is_empty x \<and>
      load_and_join_data fl fn view_tables (\<lambda>k. None) db2 = Inr y \<and> is_empty y"
    using 1 2 3 4 5 by blast
qed

lemma exact_literals: "lit_1_0 exact_floats = 1" "lit_2_0 exact_floats = 2"
  by (simp_all add: exact_floats_def)

text \<open>
  A file that stays locked, a table list that lacks a table of the join, and the sample
  database read without trouble.
\<close>

theorem load_and_join_total_witness:
  "bind (result (read_db exact_floats ''mev_commit.duckdb'' view_tables 5 (lit_1_0 exact_floats)
                   (lit_2_0 exact_floats) always_locked sample_db))
        join_dataframes
     = Inl (Exception ''Failed to read from mev_commit.duckdb after 5 attempts due to lock conflicts.'') \<and>
   load_and_join_data exact_floats ''mev_commit.duckdb'' view_tables always_locked sample_db
     = Inr DataFrame \<and>
   bind (result (read_db exact_floats ''mev_commit.duckdb'' [''commit_stores'']  5
                   (lit_1_0 exact_floats) (lit_2_0 exact_floats) (\<lambda>k. None) sample_db))
        join_dataframes
     = Inl (KeyError ''encrypted_stores'') \<and>
   load_and_join_data exact_floats ''mev_commit.duckdb'' [''commit_stores''] (\<lambda>k. None) sample_db
     = Inr DataFrame \<and>
   load_and_join_data exact_floats ''mev_commit.duckdb'' view_tables (\<lambda>k. None) sample_db
     = Inr commitments_sample"
proof -
  have sl: "\<forall>k. int k < 5 \<longrightarrow> time_sleep exact_floats (delay_at exact_floats 1 2 k) = None"
    by (simp add: exact_sleep delay_at_exact)
  have a: "bind (result (read_db exact_floats ''mev_commit.duckdb'' view_tables 5
                   (lit_1_0 exact_floats) (lit_2_0 exact_floats) always_locked sample_db))
        join_dataframes
     = Inl (Exception ''Failed to read from mev_commit.duckdb after 5 attempts due to lock conflicts.'')"
    using read_db_all_locked [of 5 always_locked exact_floats 1 2 "''mev_commit.duckdb''"
        view_tables sample_db] sl always_locked_faults
    by (simp add: bind_def str_5 exact_literals)
  have b: "bind (result (read_db exact_floats ''mev_commit.duckdb'' [''commit_stores''] 5
                   (lit_1_0 exact_floats) (lit_2_0 exact_floats) (\<lambda>k. None) sample_db))
        join_dataframes
     = Inl (KeyError ''encrypted_stores'')"
    by (simp only: read_db_free run.simps read_sample_tables)
       (simp add: bind_def join_dataframes_def getitem_def)
  have "read_tables sample_db view_tables Map.empty = Inr sample_db"
    by (subst read_view_tables [OF sample_tables]) (simp add: sample_db_def)
  then have c: "load_and_join_data exact_floats ''mev_commit.duckdb'' view_tables (\<lambda>k. None)
                  sample_db = Inr commitments_sample"
    by (simp add: load_and_join_data_def read_db_free bind_def join_sample)
  note t1 = load_and_join_total [of exact_floats "''mev_commit.duckdb''" view_tables always_locked
      sample_db, THEN conjunct2, THEN conjunct1, rule_format]
  note t2 = load_and_join_total [of exact_floats "''mev_commit.duckdb''" "[''commit_stores'']"
      "\<lambda>k. None" sample_db, THEN conjunct2, THEN conjunct1, rule_format]
  have a': "load_and_join_data exact_floats ''mev_commit.duckdb'' view_tables always_locked
              sample_db = Inr DataFrame"
    using t1 a by blast
  have b': "load_and_join_data exact_floats ''mev_commit.duckdb'' [''commit_stores'']
              (\<lambda>k. None) sample_db = Inr DataFrame"
    using t2 b by blast
  show ?thesis using a a' b b' c by simp
qed
subsection \<open>Cursors across cycles\<close>

lemma write_written:
  "snd (write_to_duckdb df T db) = (if sql_identifier T then db(T := written df (db T)) else db)"
  by (auto simp: write_db written_def split: option.splits)

lemma write_other: "T' \<noteq> T \<Longrightarrow> snd (write_to_duckdb df T db) T' = db T'"
  by (simp add: write_written)

lemma write_same:
  "snd (write_to_duckdb df T db) T = db T \<or> snd (write_to_duckdb df T db) T = written df (db T)"
  by (simp add: write_written)

lemma get_latest_table_cursor:
  "sql_identifier T \<Longrightarrow> sql_identifier bc \<Longrightarrow>
   get_latest_block_number T bc db = table_cursor bc (db T)"
  by (auto simp: get_latest_block_number_def table_exists_identifier bind_def table_cursor_def)

lemma written_empty: "is_empty df \<Longrightarrow> written df old = old"
  by (simp add: written_def)

lemma written_append_only:
  "old = Some t \<Longrightarrow> \<exists>t'. written df old = Some t' \<and> columns t' = columns t \<and> prefix (rows t) (rows t')"
  by (auto simp: written_def insert_rows_def)

lemma uints_append: "uints (vs @ ws) = uints vs @ uints ws"
  by (simp add: uints_def List.map_filter_def)

lemma table_cursor_uint:
  assumes "uint_column t bc" and "bc \<in> set (columns t)"
  shows "table_cursor bc (Some t) =
           Inr (if column_cells t bc = [] then 0
                else int (Max (set (uints (column_cells t bc)))))"
proof (cases "column_cells t bc = []")
  case True
  then show ?thesis using assms(2) by (simp add: table_cursor_def)
next
  case False
  then have "sql_max (column_cells t bc) = Some (UIntV (Max (set (uints (column_cells t bc)))))"
    using assms(1) by (simp add: sql_max_uints uint_column_def)
  then show ?thesis using False assms(2) by (simp add: table_cursor_def)
qed

lemma cursor_value_mono:
  assumes "list_all is_uint vs" and "list_all is_uint ws"
  shows "(if vs = [] then 0 else int (Max (set (uints vs))))
           \<le> (if vs @ ws = [] then 0 else int (Max (set (uints (vs @ ws)))))"
proof (cases "vs = []")
  case True
  then show ?thesis by simp
next
  case False
  then have ne: "uints vs \<noteq> []" using assms(1) by (simp add: uints_empty_iff)
  have "Max (set (uints vs)) \<le> Max (set (uints (vs @ ws)))"
    using ne by (intro Max_mono) (auto simp: uints_append)
  then show ?thesis using False by simp
qed

lemma column_cells_rows_append:
  "column_cells (t\<lparr>rows := rows t @ rs\<rparr>) bc = column_cells t bc @ column_cells \<lparr>columns = cs, rows = rs\<rparr> bc"
  by (simp add: column_cells_def List.map_filter_def)

lemma column_cells_subset:
  "set rs \<subseteq> set (rows df) \<Longrightarrow>
   set (column_cells \<lparr>columns = cs, rows = rs\<rparr> bc) \<subseteq> set (column_cells df bc)"
  by (auto simp: column_cells_def List.map_filter_def)

lemma written_cursor:
  assumes old: "\<forall>t. old = Some t \<longrightarrow> uint_column t bc \<and> columns df = columns t"
    and df: "wf_df df" "bc \<in> set (columns df)" "uint_column df bc"
    and n: "table_cursor bc old = Inr n"
  shows "\<exists>n'. table_cursor bc (written df old) = Inr n' \<and> n \<le> n'"
proof (cases "is_empty df")
  case True
  then show ?thesis using n by (simp add: written_empty)
next
  case ne: False
  show ?thesis
  proof (cases old)
    case None
    then have "n = 0" using n by (simp add: table_cursor_def)
    then show ?thesis using ne None df(2,3) by (simp add: written_def table_cursor_uint)
  next
    case (Some t)
    then have ut: "uint_column t bc" and cols: "columns t = columns df" using old by simp_all
    have bc: "bc \<in> set (columns t)" using df(2) cols by simp
    show ?thesis
    proof (cases "append_binds df t")
      case False
      then show ?thesis using ne Some n by (simp add: written_def)
    next
      case True
      let ?t' = "t\<lparr>rows := rows t @ anti_join df t\<rparr>"
      let ?ws = "column_cells \<lparr>columns = columns t, rows = anti_join df t\<rparr> bc"
      have w: "written df old = Some ?t'"
        using ne Some True insert_anti_join [OF df(1) cols] by (simp add: written_def)
      have cells: "column_cells ?t' bc = column_cells t bc @ ?ws"
        by (rule column_cells_rows_append)
      have "set ?ws \<subseteq> set (column_cells df bc)"
        by (rule column_cells_subset) (auto simp: anti_join_filter)
      then have uw: "list_all is_uint ?ws"
        using df(3) by (auto simp: uint_column_def list_all_iff)
      have ut': "uint_column ?t' bc"
        using ut uw by (simp add: uint_column_def cells)
      have "table_cursor bc (Some ?t') =
              Inr (if column_cells t bc @ ?ws = [] then 0
                   else int (Max (set (uints (column_cells t bc @ ?ws)))))"
        using table_cursor_uint [OF ut'] bc by (simp add: cells)
      moreover have "n = (if column_cells t bc = [] then 0
                          else int (Max (set (uints (column_cells t bc)))))"
        using n Some table_cursor_uint [OF ut bc] by simp
      ultimately show ?thesis
        using cursor_value_mono [OF ut [unfolded uint_column_def] uw] by (simp add: w)
    qed
  qed
qed

text \<open>The loops of one cycle.\<close>

lemma write_loop_Cons:
  "snd (write_loop ((T1, d1) # dfs) db) =
     (case fst (write_to_duckdb d1 T1 db) of
        Inl e \<Rightarrow> snd (write_to_duckdb d1 T1 db)
      | Inr info \<Rightarrow> snd (write_loop dfs (snd (write_to_duckdb d1 T1 db))))"
  by (cases "write_to_duckdb d1 T1 db") (auto split: sum.splits prod.splits)

lemma write_loop_table:
  assumes "distinct (map fst dfs)"
  shows "snd (write_loop dfs db) T = db T \<or>
         (\<exists>df. (T, df) \<in> set dfs \<and> snd (write_loop dfs db) T = written df (db T))"
  using assms
proof (induction dfs arbitrary: db)
  case Nil
  then show ?case by simp
next
  case (Cons p dfs)
  obtain T1 d1 where p: "p = (T1, d1)" by (cases p)
  let ?db' = "snd (write_to_duckdb d1 T1 db)"
  have first: "?db' T = db T \<or> (\<exists>df. (T, df) \<in> set (p # dfs) \<and> ?db' T = written df (db T))"
  proof (cases "T = T1")
    case True
    then show ?thesis using write_same [of d1 T1 db] p by auto
  next
    case False
    then show ?thesis by (simp add: write_other)
  qed
  show ?case
  proof (cases "fst (write_to_duckdb d1 T1 db)")
    case (Inl e)
    then have s: "snd (write_loop (p # dfs) db) = ?db'"
      unfolding p write_loop_Cons by simp
    show ?thesis unfolding s using first .
  next
    case (Inr info)
    then have s: "snd (write_loop (p # dfs) db) = snd (write_loop dfs ?db')"
      unfolding p write_loop_Cons by simp
    have d: "distinct (map fst dfs)" and notin: "T1 \<notin> fst ` set dfs"
      using Cons.prems by (simp_all add: p)
    from Cons.IH [OF d, of ?db'] show ?thesis
    proof
      assume a: "snd (write_loop dfs ?db') T = ?db' T"
      show ?thesis unfolding s a using first .
    next
      assume "\<exists>df. (T, df) \<in> set dfs \<and> snd (write_loop dfs ?db') T = written df (?db' T)"
      then obtain df where df: "(T, df) \<in> set dfs"
        and r: "snd (write_loop dfs ?db') T = written df (?db' T)" by blast
      have "T \<noteq> T1" using df notin by force
      then have "?db' T = db T" by (simp add: write_other)
      then have "snd (write_loop (p # dfs) db) T = written df (db T)" by (simp add: s r)
      then show ?thesis using df by auto
    qed
  qed
qed

lemma fetch_loop_Cons:
  "fetch_loop q latest ((T, bc, ev) # tabs) =
     (case q ev (from_block_of latest T) of
        Inl e \<Rightarrow>
          (case e of
             ValueError m \<Rightarrow>
               (bind (fst (fetch_loop q latest tabs)) (\<lambda>dfs. Inr ((T, DataFrame) # dfs)),
                (ev, from_block_of latest T) # snd (fetch_loop q latest tabs))
           | _ \<Rightarrow> (Inl e, [(ev, from_block_of latest T)]))
      | Inr df \<Rightarrow>
          (bind (fst (fetch_loop q latest tabs)) (\<lambda>dfs. Inr ((T, df) # dfs)),
           (ev, from_block_of latest T) # snd (fetch_loop q latest tabs)))"
  by (cases "fetch_loop q latest tabs")
    (simp add: Let_def split: sum.splits exn.splits)

lemma fetch_loop_frames:
  assumes "fst (fetch_loop q latest tabs) = Inr dfs"
  shows "map fst dfs = map fst tabs \<and>
         (\<forall>T df. (T, df) \<in> set dfs \<longrightarrow>
            df = DataFrame \<or> (\<exists>bc ev fb. (T, bc, ev) \<in> set tabs \<and> q ev fb = Inr df))"
  using assms
proof (induction tabs arbitrary: dfs)
  case Nil
  then show ?case by simp
next
  case (Cons tab tabs)
  obtain T bc ev where tab: "tab = (T, bc, ev)" by (cases tab)
  let ?fb = "from_block_of latest T"
  have "\<exists>d ds. fst (fetch_loop q latest tabs) = Inr ds \<and> dfs = (T, d) # ds \<and>
          (d = DataFrame \<or> q ev ?fb = Inr d)"
  proof (cases "q ev ?fb")
    case (Inl e)
    then show ?thesis using Cons.prems unfolding tab fetch_loop_Cons
      by (cases e) (auto simp: bind_Inr)
  next
    case (Inr df)
    then show ?thesis using Cons.prems unfolding tab fetch_loop_Cons
      by (auto simp: bind_Inr)
  qed
  then obtain d ds where
    r: "fst (fetch_loop q latest tabs) = Inr ds" and dfs: "dfs = (T, d) # ds"
    and d: "d = DataFrame \<or> q ev ?fb = Inr d"
    by blast
  from Cons.IH [OF r] have
    ih1: "map fst ds = map fst tabs"
    and ih2: "\<forall>T df. (T, df) \<in> set ds \<longrightarrow>
            df = DataFrame \<or> (\<exists>bc ev fb. (T, bc, ev) \<in> set tabs \<and> q ev fb = Inr df)"
    by simp_all
  have "map fst dfs = map fst (tab # tabs)" by (simp add: dfs tab ih1)
  moreover have "df = DataFrame \<or> (\<exists>bc ev fb. (T', bc, ev) \<in> set (tab # tabs) \<and> q ev fb = Inr df)"
    if m: "(T', df) \<in> set dfs" for T' df
  proof (cases "(T', df) = (T, d)")
    case True
    then show ?thesis using d unfolding tab by auto
  next
    case False
    have "(T', df) \<in> set ds" using m False unfolding dfs by auto
    then have "df = DataFrame \<or> (\<exists>bc ev fb. (T', bc, ev) \<in> set tabs \<and> q ev fb = Inr df)"
      using ih2 by blast
    then show ?thesis by auto
  qed
  ultimately show ?case by blast
qed

lemma fetch_loop_requests:
  "(ev, fb) \<in> set (snd (fetch_loop q latest tabs)) \<Longrightarrow>
     \<exists>T bc. (T, bc, ev) \<in> set tabs \<and> fb = from_block_of latest T"
proof (induction tabs)
  case Nil
  then show ?case by simp
next
  case (Cons tab tabs)
  obtain T bc ev' where tab: "tab = (T, bc, ev')" by (cases tab)
  have "set (snd (fetch_loop q latest (tab # tabs)))
          \<subseteq> insert (ev', from_block_of latest T) (set (snd (fetch_loop q latest tabs)))"
  proof (cases "q ev' (from_block_of latest T)")
    case (Inl e)
    then show ?thesis unfolding tab fetch_loop_Cons by (cases e) auto
  next
    case (Inr df)
    then show ?thesis unfolding tab fetch_loop_Cons by auto
  qed
  then have "(ev, fb) = (ev', from_block_of latest T) \<or> (ev, fb) \<in> set (snd (fetch_loop q latest tabs))"
    using Cons.prems by blast
  then show ?case
  proof
    assume "(ev, fb) = (ev', from_block_of latest T)"
    then show ?thesis unfolding tab by auto
  next
    assume "(ev, fb) \<in> set (snd (fetch_loop q latest tabs))"
    then obtain T'' bc'' where "(T'', bc'', ev) \<in> set tabs \<and> fb = from_block_of latest T''"
      using Cons.IH by blast
    then show ?thesis by auto
  qed
qed

lemma latest_blocks_loop_cursors:
  assumes "latest_blocks_loop tabs db m = Inr latest" and "distinct (map fst tabs)"
  shows "(\<forall>T bc ev. (T, bc, ev) \<in> set tabs \<longrightarrow>
            (\<exists>n. get_latest_block_number T bc db = Inr n \<and> latest T = Some n))
         \<and> (\<forall>T. T \<notin> fst ` set tabs \<longrightarrow> latest T = m T)"
  using assms
proof (induction tabs arbitrary: m)
  case Nil
  then show ?case by simp
next
  case (Cons tab tabs)
  obtain T bc ev where tab: "tab = (T, bc, ev)" by (cases tab)
  from Cons.prems(1) obtain n where
    n: "get_latest_block_number T bc db = Inr n"
    and rest: "latest_blocks_loop tabs db (m(T \<mapsto> n)) = Inr latest"
    by (auto simp: tab bind_Inr)
  have d: "distinct (map fst tabs)" and notin: "T \<notin> fst ` set tabs"
    using Cons.prems(2) by (simp_all add: tab)
  from Cons.IH [OF rest d] have
    ih1: "\<forall>T bc ev. (T, bc, ev) \<in> set tabs \<longrightarrow>
            (\<exists>n. get_latest_block_number T bc db = Inr n \<and> latest T = Some n)"
    and ih2: "\<forall>T'. T' \<notin> fst ` set tabs \<longrightarrow> latest T' = (m(T \<mapsto> n)) T'"
    by simp_all
  have l: "latest T = Some n" using ih2 notin by simp
  have "\<exists>n. get_latest_block_number T' bc' db = Inr n \<and> latest T' = Some n"
    if "(T', bc', ev') \<in> set (tab # tabs)" for T' bc' ev'
  proof (cases "(T', bc', ev') = tab")
    case True
    then show ?thesis using n l unfolding tab by simp
  next
    case False
    then show ?thesis using that ih1 by auto
  qed
  moreover have "latest T' = m T'" if "T' \<notin> fst ` set (tab # tabs)" for T'
  proof -
    have "T' \<noteq> T" "T' \<notin> fst ` set tabs" using that by (auto simp: tab)
    then show ?thesis using ih2 by simp
  qed
  ultimately show ?case by blast
qed

lemma tables_names: "distinct (map fst tables)"
  by (simp add: tables_def)

lemma tables_block_column: "(T, bc, ev) \<in> set tables \<Longrightarrow> bc = ''block_number''"
  by (auto simp: tables_def)

lemma tables_identifiers:
  "(T, bc, ev) \<in> set tables \<Longrightarrow> sql_identifier T \<and> sql_identifier bc"
  by (auto simp: tables_def commit_stores_identifier encrypted_stores_identifier
      commits_processed_identifier block_number_identifier)

lemma get_events_db_after:
  "db_after (get_events q db) =
     (case latest_blocks_loop tables db Map.empty of
        Inl e \<Rightarrow> db
      | Inr latest \<Rightarrow>
          (case fst (fetch_loop q latest tables) of
             Inl e \<Rightarrow> db
           | Inr dfs \<Rightarrow> snd (write_loop dfs db)))"
  by (auto simp: get_events_def split: sum.splits prod.splits)

lemma get_events_requests:
  "requests (get_events q db) =
     (case latest_blocks_loop tables db Map.empty of
        Inl e \<Rightarrow> []
      | Inr latest \<Rightarrow> snd (fetch_loop q latest tables))"
  by (auto simp: get_events_def split: sum.splits prod.splits)

lemma db_after_table:
  "db_after (get_events q db) T = db T \<or>
   (\<exists>df. db_after (get_events q db) T = written df (db T) \<and>
      (df = DataFrame \<or> (\<exists>bc ev fb. (T, bc, ev) \<in> set tables \<and> q ev fb = Inr df)))"
proof (cases "latest_blocks_loop tables db Map.empty")
  case (Inl e)
  then show ?thesis by (simp add: get_events_db_after)
next
  case (Inr latest)
  show ?thesis
  proof (cases "fst (fetch_loop q latest tables)")
    case (Inl e)
    then show ?thesis using Inr by (simp add: get_events_db_after)
  next
    case fetched: (Inr dfs)
    have a: "db_after (get_events q db) = snd (write_loop dfs db)"
      using Inr fetched by (simp add: get_events_db_after)
    from fetch_loop_frames [OF fetched] have
      names: "map fst dfs = map fst tables"
      and frames: "\<forall>T df. (T, df) \<in> set dfs \<longrightarrow>
            df = DataFrame \<or> (\<exists>bc ev fb. (T, bc, ev) \<in> set tables \<and> q ev fb = Inr df)"
      by simp_all
    have "distinct (map fst dfs)" using names tables_names by simp
    from write_loop_table [OF this, of db T] show ?thesis
      unfolding a using frames by blast
  qed
qed

text \<open>
  Claim C6. One cycle of \<open>get_events\<close> takes the database from \<open>db\<close> to \<open>db_after\<close>. For each of
  the three tables the cursor \<open>get_latest_block_number\<close> computes on the state after the cycle,
  which is the cursor of the next cycle, is at least the cursor of this cycle; every query of
  the cycle asks for the blocks from the cursor of its table plus one; and every stored table
  keeps its columns and its rows, new rows being added after them. The block column of the
  stored tables and of the fetched frames holds unsigned integers, and a fetched frame is a
  Polars frame with the columns of its table.
\<close>

theorem cursor_monotone:
  assumes "\<forall>T t. db T = Some t \<longrightarrow> uint_column t ''block_number''"
    and "\<forall>ev fb df. q ev fb = Inr df \<longrightarrow>
           wf_df df \<and> ''block_number'' \<in> set (columns df) \<and> uint_column df ''block_number''"
    and "\<forall>T bc ev fb df t. (T, bc, ev) \<in> set tables \<and> q ev fb = Inr df \<and> db T = Some t \<longrightarrow>
           columns df = columns t"
  shows "(\<forall>T bc ev n. (T, bc, ev) \<in> set tables \<and> get_latest_block_number T bc db = Inr n \<longrightarrow>
            (\<exists>n'. get_latest_block_number T bc (db_after (get_events q db)) = Inr n' \<and> n \<le> n')) \<and>
         (\<forall>req \<in> set (requests (get_events q db)).
            \<exists>T bc n. (T, bc, fst req) \<in> set tables \<and>
                     get_latest_block_number T bc db = Inr n \<and> snd req = n + 1) \<and>
         (\<forall>T t. db T = Some t \<longrightarrow>
            (\<exists>t'. db_after (get_events q db) T = Some t' \<and> columns t' = columns t \<and>
                  prefix (rows t) (rows t')))"
proof (intro conjI allI impI ballI)
  fix T bc ev n
  assume h: "(T, bc, ev) \<in> set tables \<and> get_latest_block_number T bc db = Inr n"
  then have bc: "bc = ''block_number''" using tables_block_column by blast
  have ids: "sql_identifier T" "sql_identifier bc" using h tables_identifiers by blast+
  have n: "table_cursor bc (db T) = Inr n" using h ids by (simp add: get_latest_table_cursor)
  from db_after_table [of q db T]
  have "\<exists>n'. table_cursor bc (db_after (get_events q db) T) = Inr n' \<and> n \<le> n'"
  proof
    assume "db_after (get_events q db) T = db T"
    then show ?thesis using n by simp
  next
    assume "\<exists>df. db_after (get_events q db) T = written df (db T) \<and>
      (df = DataFrame \<or> (\<exists>bc ev fb. (T, bc, ev) \<in> set tables \<and> q ev fb = Inr df))"
    then obtain df where
      a: "db_after (get_events q db) T = written df (db T)"
      and df: "df = DataFrame \<or> (\<exists>bc ev fb. (T, bc, ev) \<in> set tables \<and> q ev fb = Inr df)"
      by blast
    from df show ?thesis
    proof
      assume "df = DataFrame"
      then have "written df (db T) = db T"
        by (simp add: written_empty is_empty_def DataFrame_def)
      then show ?thesis using n a by simp
    next
      assume "\<exists>bc ev fb. (T, bc, ev) \<in> set tables \<and> q ev fb = Inr df"
      then obtain bc' ev' fb where f: "(T, bc', ev') \<in> set tables" "q ev' fb = Inr df" by blast
      have old: "\<forall>t. db T = Some t \<longrightarrow> uint_column t bc \<and> columns df = columns t"
        using assms(1,3) f unfolding bc by blast
      have typed: "wf_df df" "bc \<in> set (columns df)" "uint_column df bc"
        using assms(2) f(2) unfolding bc by blast+
      show ?thesis unfolding a using old typed n by (rule written_cursor)
    qed
  qed
  then show "\<exists>n'. get_latest_block_number T bc (db_after (get_events q db)) = Inr n' \<and> n \<le> n'"
    using ids by (simp add: get_latest_table_cursor)
next
  fix req
  assume r: "req \<in> set (requests (get_events q db))"
  obtain ev fb where req: "req = (ev, fb)" by (cases req)
  have "\<exists>latest. latest_blocks_loop tables db Map.empty = Inr latest \<and>
          (ev, fb) \<in> set (snd (fetch_loop q latest tables))"
  proof (cases "latest_blocks_loop tables db Map.empty")
    case (Inl e)
    then show ?thesis using r unfolding get_events_requests req by simp
  next
    case (Inr latest)
    then show ?thesis using r unfolding get_events_requests req by simp
  qed
  then obtain latest where
    l: "latest_blocks_loop tables db Map.empty = Inr latest"
    and m: "(ev, fb) \<in> set (snd (fetch_loop q latest tables))"
    by blast
  from fetch_loop_requests [OF m] obtain T bc where
    t: "(T, bc, ev) \<in> set tables" and fb: "fb = from_block_of latest T" by blast
  from latest_blocks_loop_cursors [OF l tables_names] t obtain n where
    n: "get_latest_block_number T bc db = Inr n" "latest T = Some n" by blast
  have "fb = n + 1" using fb n(2) by (simp add: from_block_of_def)
  then show "\<exists>T bc n. (T, bc, fst req) \<in> set tables \<and>
                     get_latest_block_number T bc db = Inr n \<and> snd req = n + 1"
    using t n(1) unfolding req by auto
next
  fix T t
  assume t: "db T = Some t"
  from db_after_table [of q db T]
  show "\<exists>t'. db_after (get_events q db) T = Some t' \<and> columns t' = columns t \<and>
             prefix (rows t) (rows t')"
  proof
    assume "db_after (get_events q db) T = db T"
    then show ?thesis using t by simp
  next
    assume "\<exists>df. db_after (get_events q db) T = written df (db T) \<and>
      (df = DataFrame \<or> (\<exists>bc ev fb. (T, bc, ev) \<in> set tables \<and> q ev fb = Inr df))"
    then obtain df where a: "db_after (get_events q db) T = written df (db T)" by blast
    show ?thesis unfolding a using t by (rule written_append_only)
  qed
qed

text \<open>One cycle on the sample database with \<open>sample_query\<close>.\<close>

lemma sample_cursors:
  "get_latest_block_number ''commit_stores'' ''block_number'' sample_db = Inr 106"
  "get_latest_block_number ''encrypted_stores'' ''block_number'' sample_db = Inr 102"
  "get_latest_block_number ''commits_processed'' ''block_number'' sample_db = Inr 111"
  by (simp_all add: get_latest_table_cursor commit_stores_identifier encrypted_stores_identifier
      commits_processed_identifier block_number_identifier table_cursor_def sample_db_def
      column_cells_def List.map_filter_def commit_stores_sample_def encrypted_stores_sample_def
      commits_processed_sample_def frame_def)

lemma sample_latest_blocks:
  "latest_blocks_loop tables sample_db Map.empty =
     Inr [''commit_stores'' \<mapsto> 106, ''encrypted_stores'' \<mapsto> 102, ''commits_processed'' \<mapsto> 111]"
  by (simp add: tables_def bind_def sample_cursors)

lemma sample_fetch:
  "fetch_loop sample_query
     [''commit_stores'' \<mapsto> 106, ''encrypted_stores'' \<mapsto> 102, ''commits_processed'' \<mapsto> 111] tables =
     (Inr [(''commit_stores'', DataFrame), (''encrypted_stores'', DataFrame),
           (''commits_processed'', fresh_sample)],
      [(''OpenedCommitmentStored'', 107), (''UnopenedCommitmentStored'', 103),
       (''CommitmentProcessed'', 112)])"
  by (simp add: tables_def sample_query_def from_block_of_def bind_def)

lemma sample_written:
  "written fresh_sample (Some commits_processed_sample) = Some appended_sample"
  by (simp add: written_def is_empty_def append_binds_def anti_join_def key_match_def
      insert_rows_def fresh_sample_def commits_processed_sample_def appended_sample_def
      frame_def)

lemma sample_write_loop:
  "snd (write_loop [(''commit_stores'', DataFrame), (''encrypted_stores'', DataFrame),
                    (''commits_processed'', fresh_sample)] sample_db)
     = sample_db(''commits_processed'' \<mapsto> appended_sample)"
  by (simp add: write_to_duckdb_def table_exists_def commits_processed_identifier is_empty_def
      DataFrame_def bind_def anti_join_def key_match_def
      insert_rows_def sample_db_def fresh_sample_def commits_processed_sample_def
      appended_sample_def frame_def)

lemma sample_db_after:
  "db_after (get_events sample_query sample_db) = sample_db(''commits_processed'' \<mapsto> appended_sample)"
  by (simp only: get_events_db_after sample_latest_blocks sample_fetch sum.case fst_conv
      sample_write_loop)

lemma sample_requests:
  "requests (get_events sample_query sample_db) =
     [(''OpenedCommitmentStored'', 107), (''UnopenedCommitmentStored'', 103),
      (''CommitmentProcessed'', 112)]"
  by (simp only: get_events_requests sample_latest_blocks sample_fetch sum.case snd_conv)

lemma sample_db_typed: "\<forall>T t. sample_db T = Some t \<longrightarrow> uint_column t ''block_number''"
proof (intro allI impI)
  fix T t assume "sample_db T = Some t"
  then have "t = encrypted_stores_sample \<or> t = commit_stores_sample \<or> t = commits_processed_sample"
    by (auto simp: sample_db_def split: if_splits)
  moreover have "uint_column encrypted_stores_sample ''block_number''"
    "uint_column commit_stores_sample ''block_number''"
    "uint_column commits_processed_sample ''block_number''"
    by (simp_all add: uint_column_def column_cells_def List.map_filter_def is_uint_def
        encrypted_stores_sample_def commit_stores_sample_def commits_processed_sample_def frame_def)
  ultimately show "uint_column t ''block_number''" by blast
qed

lemma sample_query_typed:
  "\<forall>ev fb df. sample_query ev fb = Inr df \<longrightarrow>
     wf_df df \<and> ''block_number'' \<in> set (columns df) \<and> uint_column df ''block_number''"
proof (intro allI impI)
  fix ev fb df assume "sample_query ev fb = Inr df"
  then have "df = fresh_sample" by (auto simp: sample_query_def split: if_splits)
  then show "wf_df df \<and> ''block_number'' \<in> set (columns df) \<and> uint_column df ''block_number''"
    by (simp add: wf_df_def uint_column_def column_cells_def List.map_filter_def is_uint_def
        fresh_sample_def frame_def)
qed

lemma sample_query_schema:
  "\<forall>T bc ev fb df t. (T, bc, ev) \<in> set tables \<and> sample_query ev fb = Inr df \<and> sample_db T = Some t
     \<longrightarrow> columns df = columns t"
proof (intro allI impI)
  fix T bc ev fb df t
  assume h: "(T, bc, ev) \<in> set tables \<and> sample_query ev fb = Inr df \<and> sample_db T = Some t"
  then have "df = fresh_sample" and ev: "ev = ''CommitmentProcessed''"
    by (auto simp: sample_query_def split: if_splits)
  moreover have "T = ''commits_processed''" using h ev by (auto simp: tables_def)
  moreover then have "t = commits_processed_sample" using h by (simp add: sample_db_def)
  ultimately show "columns df = columns t"
    by (simp add: fresh_sample_def commits_processed_sample_def frame_def)
qed

text \<open>
  The cursor of \<open>commits_processed\<close> goes from 111 to 130, the three queries start at 107, 103
  and 112, and the two stored rows stay in front of the new one.
\<close>

theorem cursor_monotone_witness:
  "get_latest_block_number ''commits_processed'' ''block_number'' sample_db = Inr 111 \<and>
   get_latest_block_number ''commits_processed'' ''block_number''
     (db_after (get_events sample_query sample_db)) = Inr 130 \<and>
   (\<exists>n'. get_latest_block_number ''commits_processed'' ''block_number''
            (db_after (get_events sample_query sample_db)) = Inr n' \<and> 111 \<le> n') \<and>
   requests (get_events sample_query sample_db) =
     [(''OpenedCommitmentStored'', 107), (''UnopenedCommitmentStored'', 103),
      (''CommitmentProcessed'', 112)] \<and>
   db_after (get_events sample_query sample_db) ''commits_processed'' = Some appended_sample \<and>
   prefix (rows commits_processed_sample) (rows appended_sample)"
proof -
  note t = cursor_monotone [OF sample_db_typed sample_query_typed sample_query_schema]
  have m: "(''commits_processed'', ''block_number'', ''CommitmentProcessed'') \<in> set tables"
    by (simp add: tables_def)
  have a: "\<exists>n'. get_latest_block_number ''commits_processed'' ''block_number''
            (db_after (get_events sample_query sample_db)) = Inr n' \<and> 111 \<le> n'"
    using t [THEN conjunct1, rule_format, of "''commits_processed''" "''block_number''"
        "''CommitmentProcessed''" 111] m sample_cursors(3) by blast
  have b: "get_latest_block_number ''commits_processed'' ''block_number''
     (db_after (get_events sample_query sample_db)) = Inr 130"
    by (simp add: sample_db_after get_latest_table_cursor commits_processed_identifier
        block_number_identifier table_cursor_def column_cells_def
        List.map_filter_def appended_sample_def frame_def)
  have c: "db_after (get_events sample_query sample_db) ''commits_processed'' = Some appended_sample"
    by (simp add: sample_db_after)
  have d: "prefix (rows commits_processed_sample) (rows appended_sample)"
    by (simp add: commits_processed_sample_def appended_sample_def frame_def)
  show ?thesis using a b c d sample_cursors(3) sample_requests by simp
qed


end
